theory Spec2Isabelle
  imports Main "HOL-Library.Word"
begin

section \<open>The graph container of \<open>src/Graph.h\<close>\<close>

text \<open>
  \<open>jvn::Graph<V, Directed, Weighted, VerEq, Alloc>\<close> keeps its vertices in a singly linked
  list of \<open>VertexNode\<close> records and, per vertex, its outgoing edges in a singly linked list
  of \<open>EdgeNode\<close> records. Records are only ever appended (there is no removal), and the
  whole structure is released at once by \<open>destroyGraph\<close>.

  The embedding represents each linked list by the HOL list of its records in link order:
  the \<open>next\<close> field of a record is the rest of the list, and \<open>nullptr\<close> is the empty rest.
  A \<open>VertexNode*\<close> is \<open>None\<close> (for \<open>nullptr\<close>) or \<open>Some i\<close>, the record at position \<open>i\<close>
  of the vertex list; an \<open>EdgeNode*\<close> is \<open>None\<close> or \<open>Some (i, k)\<close>, the record at position
  \<open>k\<close> of the edge list owned by vertex record \<open>i\<close>. Pointer comparison is comparison of
  these positions.

  The template parameters are parameters of the functions: \<open>Directed\<close> and \<open>Weighted\<close>
  are booleans, \<open>VerEq\<close> is a binary predicate on vertex values. \<open>edge_type\<close> is the triple
  (from, to, weight); for \<open>Weighted = false\<close> the C++ tuple has no third component, and no
  operation of the model reads it then. The weight is a C++ \<open>int\<close>. \<open>m_size\<close> is a
  \<open>size_t\<close>; it counts allocated records, so it cannot wrap, and it is a natural number here.
\<close>

subsection \<open>Records\<close>

record EdgeNode =
  weight :: "32 word"
  vertex_node :: nat

record 'v VertexNode =
  vertex :: 'v
  edge_list :: "EdgeNode list"

record 'v Graph =
  m_vertex_node_list :: "'v VertexNode list"
  m_size :: nat

type_synonym 'v edge_type = "'v \<times> 'v \<times> 32 word"

type_synonym 'v vertex_equal = "'v \<Rightarrow> 'v \<Rightarrow> bool"

definition get0 :: "'v edge_type \<Rightarrow> 'v" where
  "get0 edge = fst edge"

definition get1 :: "'v edge_type \<Rightarrow> 'v" where
  "get1 edge = fst (snd edge)"

definition get_last :: "'v edge_type \<Rightarrow> 32 word" where
  "get_last edge = snd (snd edge)"

text \<open>\<open>EdgeNodeConditional(VertexNode* v)\<close>: the weight defaults to 0, \<open>next\<close> to null.\<close>

definition new_EdgeNode :: "nat \<Rightarrow> EdgeNode" where
  "new_EdgeNode v = \<lparr>weight = 0, vertex_node = v\<rparr>"

text \<open>\<open>VertexNode(const vertex_type& v)\<close>: no edges, \<open>next\<close> null.\<close>

definition new_VertexNode :: "'v \<Rightarrow> 'v VertexNode" where
  "new_VertexNode v = \<lparr>vertex = v, edge_list = []\<rparr>"

subsection \<open>Cursors\<close>

text \<open>
  Both iterators throw \<open>std::runtime_error\<close>, with the message "End of iteration reached"
  when advanced at the end and "Invalid iterator" when dereferenced there. An operation on
  a cursor either returns, throws one of the two, or reads through a pointer that addresses
  no record of the graph, which C++ leaves undefined.
\<close>

datatype error = End_of_iteration_reached | Invalid_iterator

datatype 'a outcome = Returns 'a | Throws error | Undefined

datatype VertexIter = VertexIter (m_vertex_node: "nat option")

record EdgeIter =
  m_vertex_node_e :: "nat option"
  m_edge_node :: "(nat \<times> nat) option"

definition end_iter :: VertexIter where
  "end_iter = VertexIter None"

definition edge_end :: EdgeIter where
  "edge_end = \<lparr>m_vertex_node_e = None, m_edge_node = None\<rparr>"

text \<open>\<open>operator==\<close> of \<open>VertexIter\<close> compares the record pointer; that of \<open>EdgeIter\<close>
  compares the edge record pointer only.\<close>

definition VertexIter_eq :: "VertexIter \<Rightarrow> VertexIter \<Rightarrow> bool" where
  "VertexIter_eq lhs rhs = (m_vertex_node lhs = m_vertex_node rhs)"

definition EdgeIter_eq :: "EdgeIter \<Rightarrow> EdgeIter \<Rightarrow> bool" where
  "EdgeIter_eq lhs rhs = (m_edge_node lhs = m_edge_node rhs)"

text \<open>A vertex pointer, and an edge pointer, that address a record of the graph.\<close>

definition live_vertex :: "'v Graph \<Rightarrow> nat \<Rightarrow> bool" where
  "live_vertex g i = (i < length (m_vertex_node_list g))"

definition live_edge :: "'v Graph \<Rightarrow> nat \<times> nat \<Rightarrow> bool" where
  "live_edge g p = (fst p < length (m_vertex_node_list g) \<and>
     snd p < length (edge_list (m_vertex_node_list g ! fst p)))"

text \<open>\<open>VertexIter::operator++\<close>.\<close>

definition VertexIter_inc :: "'v Graph \<Rightarrow> VertexIter \<Rightarrow> VertexIter outcome" where
  "VertexIter_inc g it =
     (case m_vertex_node it of
        None \<Rightarrow> Throws End_of_iteration_reached
      | Some i \<Rightarrow>
          if live_vertex g i
          then Returns (VertexIter (if Suc i < length (m_vertex_node_list g) then Some (Suc i) else None))
          else Undefined)"

text \<open>\<open>VertexIter::operator*\<close>; \<open>operator->\<close> has the same guard and yields the address
  of the same value.\<close>

definition VertexIter_deref :: "'v Graph \<Rightarrow> VertexIter \<Rightarrow> 'v outcome" where
  "VertexIter_deref g it =
     (case m_vertex_node it of
        None \<Rightarrow> Throws Invalid_iterator
      | Some i \<Rightarrow>
          if live_vertex g i then Returns (vertex (m_vertex_node_list g ! i)) else Undefined)"

text \<open>\<open>VertexIter::getEdges\<close> is \<open>noexcept\<close> and reads \<open>m_vertex_node->edge_list\<close> with no
  check of \<open>m_vertex_node\<close>.\<close>

definition getEdges :: "'v Graph \<Rightarrow> VertexIter \<Rightarrow> EdgeIter outcome" where
  "getEdges g it =
     (case m_vertex_node it of
        None \<Rightarrow> Undefined
      | Some i \<Rightarrow>
          if live_vertex g i
          then Returns \<lparr>m_vertex_node_e = Some i,
                 m_edge_node = (if edge_list (m_vertex_node_list g ! i) = [] then None else Some (i, 0))\<rparr>
          else Undefined)"

text \<open>\<open>EdgeIter::operator++\<close>.\<close>

definition EdgeIter_inc :: "'v Graph \<Rightarrow> EdgeIter \<Rightarrow> EdgeIter outcome" where
  "EdgeIter_inc g it =
     (case m_edge_node it of
        None \<Rightarrow> Throws End_of_iteration_reached
      | Some p \<Rightarrow>
          if live_edge g p
          then Returns (it\<lparr>m_edge_node :=
                 (if Suc (snd p) < length (edge_list (m_vertex_node_list g ! fst p))
                  then Some (fst p, Suc (snd p)) else None)\<rparr>)
          else Undefined)"

text \<open>\<open>EdgeIter::getTuple<Weighted>\<close>: the value of the start vertex, the value of the
  record the edge points to and, when weighted, the weight.\<close>

definition getTuple :: "bool \<Rightarrow> 'v Graph \<Rightarrow> nat \<Rightarrow> EdgeNode \<Rightarrow> 'v edge_type" where
  "getTuple Weighted g v e =
     (vertex (m_vertex_node_list g ! v),
      vertex (m_vertex_node_list g ! vertex_node e),
      if Weighted then weight e else 0)"

text \<open>\<open>EdgeIter::operator*\<close>.\<close>

definition EdgeIter_deref :: "bool \<Rightarrow> 'v Graph \<Rightarrow> EdgeIter \<Rightarrow> 'v edge_type outcome" where
  "EdgeIter_deref Weighted g it =
     (case m_edge_node it of
        None \<Rightarrow> Throws Invalid_iterator
      | Some p \<Rightarrow>
          (case m_vertex_node_e it of
             None \<Rightarrow> Undefined
           | Some v \<Rightarrow>
               if live_vertex g v \<and> live_edge g p \<and>
                  live_vertex g (vertex_node (edge_list (m_vertex_node_list g ! fst p) ! snd p))
               then Returns (getTuple Weighted g v (edge_list (m_vertex_node_list g ! fst p) ! snd p))
               else Undefined))"

text \<open>\<open>EdgeIter::getStartVertex\<close>.\<close>

definition getStartVertex :: "EdgeIter \<Rightarrow> VertexIter" where
  "getStartVertex it = VertexIter (m_vertex_node_e it)"

subsection \<open>The graph\<close>

text \<open>\<open>Graph()\<close>.\<close>

definition Graph_empty :: "'v Graph" where
  "Graph_empty = \<lparr>m_vertex_node_list = [], m_size = 0\<rparr>"

text \<open>\<open>begin()\<close>.\<close>

definition begin_iter :: "'v Graph \<Rightarrow> VertexIter" where
  "begin_iter g = VertexIter (if m_vertex_node_list g = [] then None else Some 0)"

text \<open>
  The loop of \<open>findVertexHelper\<close>: \<open>search\<close> is the record at position \<open>i\<close>, the list holds
  that record and the ones linked after it. The loop moves on while there is a next record
  and the predicate, applied to the value looked for and the record's value, fails.
\<close>

fun findVertexLoop :: "'v vertex_equal \<Rightarrow> 'v \<Rightarrow> 'v VertexNode list \<Rightarrow> nat \<Rightarrow> nat" where
  "findVertexLoop VerEq v (n # n' # ns) i =
     (if \<not> VerEq v (vertex n) then findVertexLoop VerEq v (n' # ns) (Suc i) else i)"
| "findVertexLoop VerEq v ns i = i"

definition findVertexHelper :: "'v vertex_equal \<Rightarrow> 'v Graph \<Rightarrow> 'v \<Rightarrow> nat option" where
  "findVertexHelper VerEq g v =
     (if m_vertex_node_list g = [] then None
      else Some (findVertexLoop VerEq v (m_vertex_node_list g) 0))"

text \<open>
  \<open>addVertex\<close>. The store \<open>search->next = allocate(1)\<close> replaces whatever was linked
  after \<open>search\<close>; for a symmetric predicate \<open>search\<close> is then the last record (lemma
  \<open>addVertex_missing\<close>), so that no record is ever unlinked and the position of a record
  stays its address. The last branch of the \<open>case\<close> is not reached: \<open>findVertexHelper\<close>
  returns a record whenever the list is not empty.
\<close>

definition addVertex :: "'v vertex_equal \<Rightarrow> 'v Graph \<Rightarrow> 'v \<Rightarrow> 'v Graph \<times> VertexIter \<times> bool" where
  "addVertex VerEq g v =
     (if m_vertex_node_list g = []
      then (g\<lparr>m_vertex_node_list := [new_VertexNode v], m_size := m_size g + 1\<rparr>,
            VertexIter (Some 0), True)
      else
        (case findVertexHelper VerEq g v of
           Some search \<Rightarrow>
             if VerEq (vertex (m_vertex_node_list g ! search)) v
             then (g, VertexIter (Some search), False)
             else (g\<lparr>m_vertex_node_list :=
                       take (Suc search) (m_vertex_node_list g) @ [new_VertexNode v],
                     m_size := m_size g + 1\<rparr>,
                   VertexIter (Some (Suc search)), True)
         | None \<Rightarrow> (g, end_iter, False)))"

text \<open>\<open>addVertex(std::initializer_list<vertex_type>)\<close>.\<close>

fun addVertex_list :: "'v vertex_equal \<Rightarrow> 'v Graph \<Rightarrow> 'v list \<Rightarrow> 'v Graph" where
  "addVertex_list VerEq g [] = g"
| "addVertex_list VerEq g (v # vs) = addVertex_list VerEq (fst (addVertex VerEq g v)) vs"

text \<open>\<open>findVertex\<close>.\<close>

definition findVertex :: "'v vertex_equal \<Rightarrow> 'v Graph \<Rightarrow> 'v \<Rightarrow> VertexIter" where
  "findVertex VerEq g v =
     (case findVertexHelper VerEq g v of
        None \<Rightarrow> end_iter
      | Some search \<Rightarrow>
          if \<not> VerEq (vertex (m_vertex_node_list g ! search)) v then end_iter
          else VertexIter (Some search))"

text \<open>
  The loop of \<open>findEdgeHelper\<close>, over the edge list of one vertex: it moves on while there
  is a next record and the record's destination is not the record \<open>to\<close>.
\<close>

fun findEdgeLoop :: "nat \<Rightarrow> EdgeNode list \<Rightarrow> nat \<Rightarrow> nat" where
  "findEdgeLoop to (e # e' # es) k =
     (if vertex_node e \<noteq> to then findEdgeLoop to (e' # es) (Suc k) else k)"
| "findEdgeLoop to es k = k"

definition findEdgeHelper :: "'v Graph \<Rightarrow> nat option \<Rightarrow> nat option \<Rightarrow> (nat \<times> nat) option" where
  "findEdgeHelper g from to =
     (case from of
        None \<Rightarrow> None
      | Some f \<Rightarrow>
          (case to of
             None \<Rightarrow> None
           | Some t \<Rightarrow>
               if edge_list (m_vertex_node_list g ! f) = [] then None
               else Some (f, findEdgeLoop t (edge_list (m_vertex_node_list g ! f)) 0)))"

text \<open>\<open>setEdgeWeight<Weighted>\<close>: the unweighted specialisation does nothing.\<close>

definition setEdgeWeight :: "bool \<Rightarrow> EdgeNode \<Rightarrow> 32 word \<Rightarrow> EdgeNode" where
  "setEdgeWeight Weighted e w = (if Weighted then e\<lparr>weight := w\<rparr> else e)"

text \<open>The edge list of vertex record \<open>f\<close> replaced.\<close>

definition set_edge_list :: "'v Graph \<Rightarrow> nat \<Rightarrow> EdgeNode list \<Rightarrow> 'v Graph" where
  "set_edge_list g f es =
     g\<lparr>m_vertex_node_list := (m_vertex_node_list g)[f := (m_vertex_node_list g ! f)\<lparr>edge_list := es\<rparr>]\<rparr>"

text \<open>
  \<open>addEdgeHelper\<close>, on two records of the graph. The last branch of the \<open>case\<close> is not
  reached: \<open>findEdgeHelper\<close> returns a record whenever the edge list is not empty.
\<close>

definition addEdgeHelper ::
  "bool \<Rightarrow> 'v Graph \<Rightarrow> nat \<Rightarrow> nat \<Rightarrow> 32 word \<Rightarrow> 'v Graph \<times> EdgeIter \<times> bool" where
  "addEdgeHelper Weighted g from to w =
     (if edge_list (m_vertex_node_list g ! from) = []
      then (set_edge_list g from [setEdgeWeight Weighted (new_EdgeNode to) w],
            \<lparr>m_vertex_node_e = Some from, m_edge_node = Some (from, 0)\<rparr>, True)
      else
        (case findEdgeHelper g (Some from) (Some to) of
           Some edge_search \<Rightarrow>
             if vertex_node (edge_list (m_vertex_node_list g ! from) ! snd edge_search) = to
             then (g, \<lparr>m_vertex_node_e = Some from, m_edge_node = Some edge_search\<rparr>, False)
             else (set_edge_list g from
                     (take (Suc (snd edge_search)) (edge_list (m_vertex_node_list g ! from)) @
                      [setEdgeWeight Weighted (new_EdgeNode to) w]),
                   \<lparr>m_vertex_node_e = Some from,
                    m_edge_node = Some (from, Suc (snd edge_search))\<rparr>, True)
         | None \<Rightarrow> (g, edge_end, False)))"

text \<open>
  \<open>addEdgeCaller<Directed>\<close>: both endpoints are inserted, then the undirected graph
  inserts the mirror edge and the edge, the directed one the edge alone. \<open>addVertex\<close>
  never returns the end cursor, so the last branch of the \<open>case\<close> is not reached.
\<close>

definition addEdgeCaller ::
  "bool \<Rightarrow> bool \<Rightarrow> 'v vertex_equal \<Rightarrow> 'v Graph \<Rightarrow> 'v edge_type \<Rightarrow> 'v Graph \<times> EdgeIter \<times> bool" where
  "addEdgeCaller Directed Weighted VerEq g edge =
     (let r1 = addVertex VerEq g (get0 edge);
          r2 = addVertex VerEq (fst r1) (get1 edge)
      in case (m_vertex_node (fst (snd r1)), m_vertex_node (fst (snd r2))) of
           (Some vertex_from_node, Some vertex_to_node) \<Rightarrow>
             if Directed
             then addEdgeHelper Weighted (fst r2) vertex_from_node vertex_to_node (get_last edge)
             else addEdgeHelper Weighted
                    (fst (addEdgeHelper Weighted (fst r2) vertex_to_node vertex_from_node (get_last edge)))
                    vertex_from_node vertex_to_node (get_last edge)
         | _ \<Rightarrow> (fst r2, edge_end, False))"

text \<open>\<open>addEdge(const edge_type&)\<close> and \<open>addEdge(std::initializer_list<edge_type>)\<close>.\<close>

definition addEdge ::
  "bool \<Rightarrow> bool \<Rightarrow> 'v vertex_equal \<Rightarrow> 'v Graph \<Rightarrow> 'v edge_type \<Rightarrow> 'v Graph \<times> EdgeIter \<times> bool" where
  "addEdge Directed Weighted VerEq g edge = addEdgeCaller Directed Weighted VerEq g edge"

fun addEdge_list ::
  "bool \<Rightarrow> bool \<Rightarrow> 'v vertex_equal \<Rightarrow> 'v Graph \<Rightarrow> 'v edge_type list \<Rightarrow> 'v Graph" where
  "addEdge_list Directed Weighted VerEq g [] = g"
| "addEdge_list Directed Weighted VerEq g (e # es) =
     addEdge_list Directed Weighted VerEq (fst (addEdge Directed Weighted VerEq g e)) es"

text \<open>\<open>Graph(std::initializer_list<edge_type>)\<close>.\<close>

definition Graph_of_edges :: "bool \<Rightarrow> bool \<Rightarrow> 'v vertex_equal \<Rightarrow> 'v edge_type list \<Rightarrow> 'v Graph" where
  "Graph_of_edges Directed Weighted VerEq list = addEdge_list Directed Weighted VerEq Graph_empty list"

text \<open>\<open>findEdge\<close>.\<close>

definition findEdge :: "'v vertex_equal \<Rightarrow> 'v Graph \<Rightarrow> 'v edge_type \<Rightarrow> EdgeIter" where
  "findEdge VerEq g edge =
     (let from = m_vertex_node (findVertex VerEq g (get0 edge));
          to = m_vertex_node (findVertex VerEq g (get1 edge));
          edge_search = findEdgeHelper g from to
      in case edge_search of
           Some p \<Rightarrow>
             if Some (vertex_node (edge_list (m_vertex_node_list g ! fst p) ! snd p)) \<noteq> to
             then edge_end
             else \<lparr>m_vertex_node_e = from, m_edge_node = edge_search\<rparr>
         | None \<Rightarrow> \<lparr>m_vertex_node_e = from, m_edge_node = edge_search\<rparr>)"

text \<open>\<open>destroyGraph\<close> releases every record and resets the head and the count.\<close>

definition destroyGraph :: "'v Graph \<Rightarrow> 'v Graph" where
  "destroyGraph g = g\<lparr>m_size := 0, m_vertex_node_list := []\<rparr>"

text \<open>
  \<open>operator=(const Graph& g)\<close>, for a source \<open>g\<close> that is another object: the inner loop
  inserts the tuple of every edge record of one vertex record \<open>v\<close> of \<open>g\<close>, the outer loop
  runs over the vertex records of \<open>g\<close> from \<open>begin()\<close> to \<open>end()\<close>.
\<close>

fun copy_edges ::
  "bool \<Rightarrow> bool \<Rightarrow> 'v vertex_equal \<Rightarrow> 'v Graph \<Rightarrow> nat \<Rightarrow> EdgeNode list \<Rightarrow> 'v Graph \<Rightarrow> 'v Graph" where
  "copy_edges Directed Weighted VerEq g v [] this = this"
| "copy_edges Directed Weighted VerEq g v (e # es) this =
     copy_edges Directed Weighted VerEq g v es
       (fst (addEdge Directed Weighted VerEq this (getTuple Weighted g v e)))"

fun copy_vertices ::
  "bool \<Rightarrow> bool \<Rightarrow> 'v vertex_equal \<Rightarrow> 'v Graph \<Rightarrow> nat \<Rightarrow> 'v VertexNode list \<Rightarrow> 'v Graph \<Rightarrow> 'v Graph" where
  "copy_vertices Directed Weighted VerEq g v [] this = this"
| "copy_vertices Directed Weighted VerEq g v (n # ns) this =
     copy_vertices Directed Weighted VerEq g (Suc v) ns
       (copy_edges Directed Weighted VerEq g v (edge_list n) this)"

definition operator_assign ::
  "bool \<Rightarrow> bool \<Rightarrow> 'v vertex_equal \<Rightarrow> 'v Graph \<Rightarrow> 'v Graph \<Rightarrow> 'v Graph" where
  "operator_assign Directed Weighted VerEq this g =
     copy_vertices Directed Weighted VerEq g 0 (m_vertex_node_list g) (destroyGraph this)"

text \<open>\<open>Graph(const Graph& g)\<close>.\<close>

definition Graph_copy :: "bool \<Rightarrow> bool \<Rightarrow> 'v vertex_equal \<Rightarrow> 'v Graph \<Rightarrow> 'v Graph" where
  "Graph_copy Directed Weighted VerEq g = operator_assign Directed Weighted VerEq Graph_empty g"

subsection \<open>Properties of graph states\<close>

text \<open>The stored vertex count is the number of vertex records linked from the head.\<close>

definition count_ok :: "'v Graph \<Rightarrow> bool" where
  "count_ok g = (m_size g = length (m_vertex_node_list g))"

text \<open>
  No two vertex records hold values that the predicate equates; every edge record points to
  a record of the vertex list; no edge list holds two records with the same destination;
  and, for the undirected graph, every edge record has a mirror record with the same weight
  in the edge list of its destination.
\<close>

definition vertices_distinct :: "'v vertex_equal \<Rightarrow> 'v Graph \<Rightarrow> bool" where
  "vertices_distinct VerEq g =
     (\<forall>i<length (m_vertex_node_list g). \<forall>j<length (m_vertex_node_list g).
        VerEq (vertex (m_vertex_node_list g ! i)) (vertex (m_vertex_node_list g ! j)) \<longrightarrow> i = j)"

definition edges_live :: "'v Graph \<Rightarrow> bool" where
  "edges_live g =
     (\<forall>i<length (m_vertex_node_list g). \<forall>e\<in>set (edge_list (m_vertex_node_list g ! i)).
        vertex_node e < length (m_vertex_node_list g))"

definition edges_distinct :: "'v Graph \<Rightarrow> bool" where
  "edges_distinct g =
     (\<forall>i<length (m_vertex_node_list g).
        distinct (map vertex_node (edge_list (m_vertex_node_list g ! i))))"

definition mirrored :: "'v Graph \<Rightarrow> bool" where
  "mirrored g =
     (\<forall>i<length (m_vertex_node_list g). \<forall>e\<in>set (edge_list (m_vertex_node_list g ! i)).
        \<exists>e'\<in>set (edge_list (m_vertex_node_list g ! vertex_node e)).
          vertex_node e' = i \<and> weight e' = weight e)"

definition graph_inv :: "bool \<Rightarrow> 'v vertex_equal \<Rightarrow> 'v Graph \<Rightarrow> bool" where
  "graph_inv Directed VerEq g =
     (count_ok g \<and> vertices_distinct VerEq g \<and> edges_live g \<and> edges_distinct g \<and>
      (\<not> Directed \<longrightarrow> mirrored g))"

text \<open>The graph states that the public operations build from the empty graph.\<close>

inductive reachable :: "bool \<Rightarrow> bool \<Rightarrow> 'v vertex_equal \<Rightarrow> 'v Graph \<Rightarrow> bool"
  for Directed Weighted VerEq where
  reachable_empty: "reachable Directed Weighted VerEq Graph_empty"
| reachable_addVertex:
    "reachable Directed Weighted VerEq g \<Longrightarrow>
     reachable Directed Weighted VerEq (fst (addVertex VerEq g v))"
| reachable_addEdge:
    "reachable Directed Weighted VerEq g \<Longrightarrow>
     reachable Directed Weighted VerEq (fst (addEdge Directed Weighted VerEq g e))"

text \<open>
  A vertex record linked at the tail of the vertex list, an edge record linked at the tail of
  the edge list of vertex record \<open>f\<close>, and the set of records that the edges of vertex
  record \<open>i\<close> point to.
\<close>

definition append_vertex :: "'v Graph \<Rightarrow> 'v \<Rightarrow> 'v Graph" where
  "append_vertex g v =
     g\<lparr>m_vertex_node_list := m_vertex_node_list g @ [new_VertexNode v], m_size := m_size g + 1\<rparr>"

definition append_edge :: "'v Graph \<Rightarrow> nat \<Rightarrow> EdgeNode \<Rightarrow> 'v Graph" where
  "append_edge g f e = set_edge_list g f (edge_list (m_vertex_node_list g ! f) @ [e])"

definition dests :: "'v Graph \<Rightarrow> nat \<Rightarrow> nat set" where
  "dests g i = vertex_node ` set (edge_list (m_vertex_node_list g ! i))"

text \<open>
  The values that the predicate equates with \<open>v\<close>: for an equivalence, the class of \<open>v\<close>.
  The number of distinct values of a sequence under the predicate is the number of classes
  of its values.
\<close>

definition eq_class :: "'v vertex_equal \<Rightarrow> 'v \<Rightarrow> 'v set" where
  "eq_class VerEq v = {x. VerEq v x}"

text \<open>
  The number of edge records of the graph, over all edge lists; an inserted edge as an
  unordered pair of vertices, up to the predicate; the pairs (source record, destination
  record) of the edge records, by position and by class of the values.
\<close>

definition total_edge_records :: "'v Graph \<Rightarrow> nat" where
  "total_edge_records g = sum_list (map (\<lambda>n. length (edge_list n)) (m_vertex_node_list g))"

definition unordered_edge :: "'v vertex_equal \<Rightarrow> 'v edge_type \<Rightarrow> 'v set set" where
  "unordered_edge VerEq e = {eq_class VerEq (get0 e), eq_class VerEq (get1 e)}"

definition edge_pairs :: "'v Graph \<Rightarrow> (nat \<times> nat) set" where
  "edge_pairs g = {(i, j). i < length (m_vertex_node_list g) \<and> j \<in> dests g i}"

definition class_pairs :: "'v vertex_equal \<Rightarrow> 'v Graph \<Rightarrow> ('v set \<times> 'v set) set" where
  "class_pairs VerEq g =
     (\<lambda>(i, j). (eq_class VerEq (vertex (m_vertex_node_list g ! i)),
                eq_class VerEq (vertex (m_vertex_node_list g ! j)))) ` edge_pairs g"

section \<open>Properties\<close>

subsection \<open>The two scans\<close>

lemmas iter_defs = VertexIter_inc_def VertexIter_deref_def getEdges_def EdgeIter_inc_def
  EdgeIter_deref_def end_iter_def edge_end_def live_vertex_def live_edge_def getTuple_def

lemma findVertexLoop_shift:
  "findVertexLoop VerEq v ns (i + d) = findVertexLoop VerEq v ns i + d"
  by (induction VerEq v ns i rule: findVertexLoop.induct) auto

lemma findVertexLoop_Suc:
  "findVertexLoop VerEq v ns (Suc i) = Suc (findVertexLoop VerEq v ns i)"
  using findVertexLoop_shift [of VerEq v ns i 1] by simp

lemma findVertexLoop_bound:
  "ns \<noteq> [] \<Longrightarrow> findVertexLoop VerEq v ns 0 < length ns"
proof (induction ns)
  case Nil
  then show ?case by simp
next
  case (Cons n ns)
  then show ?case
    by (cases ns) (auto simp: findVertexLoop_Suc)
qed

lemma findVertexLoop_before:
  "j < findVertexLoop VerEq v ns 0 \<Longrightarrow> \<not> VerEq v (vertex (ns ! j))"
proof (induction ns arbitrary: j)
  case Nil
  then show ?case by simp
next
  case (Cons n ns)
  show ?case
  proof (cases ns)
    case Nil
    with Cons.prems show ?thesis by simp
  next
    case (Cons n' ns')
    with Cons.prems Cons.IH show ?thesis
      by (cases j) (auto simp: findVertexLoop_Suc split: if_splits)
  qed
qed

lemma findVertexLoop_stop:
  "ns \<noteq> [] \<Longrightarrow>
   VerEq v (vertex (ns ! findVertexLoop VerEq v ns 0)) \<or>
   Suc (findVertexLoop VerEq v ns 0) = length ns"
proof (induction ns)
  case Nil
  then show ?case by simp
next
  case (Cons n ns)
  show ?case
  proof (cases ns)
    case Nil
    then show ?thesis by simp
  next
    case (Cons n' ns')
    with Cons.IH show ?thesis
      by (auto simp: findVertexLoop_Suc)
  qed
qed

lemma findVertexLoop_found:
  assumes "n \<in> set ns" "VerEq v (vertex n)"
  shows "VerEq v (vertex (ns ! findVertexLoop VerEq v ns 0))"
proof -
  from assms(1) have ne: "ns \<noteq> []" by auto
  from assms(1) obtain j where j: "j < length ns" "ns ! j = n"
    by (auto simp: in_set_conv_nth)
  show ?thesis
  proof (rule ccontr)
    assume no: "\<not> ?thesis"
    with findVertexLoop_stop [OF ne, of VerEq v]
    have last: "Suc (findVertexLoop VerEq v ns 0) = length ns" by blast
    from no j assms(2) have "j \<noteq> findVertexLoop VerEq v ns 0" by auto
    with j(1) last have "j < findVertexLoop VerEq v ns 0" by simp
    from findVertexLoop_before [OF this] j(2) assms(2) show False by simp
  qed
qed

lemma findVertexLoop_missing:
  assumes "ns \<noteq> []" "\<forall>n\<in>set ns. \<not> VerEq v (vertex n)"
  shows "Suc (findVertexLoop VerEq v ns 0) = length ns"
  using findVertexLoop_stop [OF assms(1), of VerEq v] findVertexLoop_bound [OF assms(1), of VerEq v]
    assms(2) by (auto simp: all_set_conv_all_nth)

lemma addVertex_found:
  assumes "symp VerEq" "n \<in> set (m_vertex_node_list g)" "VerEq (vertex n) v"
  shows "addVertex VerEq g v =
           (g, VertexIter (Some (findVertexLoop VerEq v (m_vertex_node_list g) 0)), False)"
    and "findVertex VerEq g v = VertexIter (Some (findVertexLoop VerEq v (m_vertex_node_list g) 0))"
    and "VerEq (vertex (m_vertex_node_list g ! findVertexLoop VerEq v (m_vertex_node_list g) 0)) v"
proof -
  from assms(1,3) have "VerEq v (vertex n)" by (auto dest: sympD)
  from findVertexLoop_found [of n "m_vertex_node_list g" VerEq v, OF assms(2) this] assms(1)
  show eq: "VerEq (vertex (m_vertex_node_list g ! findVertexLoop VerEq v (m_vertex_node_list g) 0)) v"
    by (auto dest: sympD)
  from assms(2) have ne: "m_vertex_node_list g \<noteq> []" by auto
  from eq ne show "addVertex VerEq g v =
           (g, VertexIter (Some (findVertexLoop VerEq v (m_vertex_node_list g) 0)), False)"
    by (simp add: addVertex_def findVertexHelper_def)
  from eq ne show "findVertex VerEq g v = VertexIter (Some (findVertexLoop VerEq v (m_vertex_node_list g) 0))"
    by (simp add: findVertex_def findVertexHelper_def)
qed

lemma addVertex_missing:
  assumes "symp VerEq" "\<forall>n\<in>set (m_vertex_node_list g). \<not> VerEq (vertex n) v"
  shows "addVertex VerEq g v =
           (g\<lparr>m_vertex_node_list := m_vertex_node_list g @ [new_VertexNode v],
              m_size := m_size g + 1\<rparr>,
            VertexIter (Some (length (m_vertex_node_list g))), True)"
    and "findVertex VerEq g v = end_iter"
proof -
  show "addVertex VerEq g v =
           (g\<lparr>m_vertex_node_list := m_vertex_node_list g @ [new_VertexNode v],
              m_size := m_size g + 1\<rparr>,
            VertexIter (Some (length (m_vertex_node_list g))), True)"
  proof (cases "m_vertex_node_list g = []")
    case True
    then show ?thesis by (simp add: addVertex_def)
  next
    case False
    from findVertexLoop_missing [OF False, of VerEq v] assms
    have last: "Suc (findVertexLoop VerEq v (m_vertex_node_list g) 0) = length (m_vertex_node_list g)"
      by (auto dest: sympD)
    then have "findVertexLoop VerEq v (m_vertex_node_list g) 0 < length (m_vertex_node_list g)"
      by simp
    then have "m_vertex_node_list g ! findVertexLoop VerEq v (m_vertex_node_list g) 0
                 \<in> set (m_vertex_node_list g)" by simp
    with assms(2) have "\<not> VerEq (vertex (m_vertex_node_list g ! findVertexLoop VerEq v (m_vertex_node_list g) 0)) v"
      by blast
    with False last show ?thesis
      by (simp add: addVertex_def findVertexHelper_def)
  qed
  show "findVertex VerEq g v = end_iter"
  proof (cases "m_vertex_node_list g = []")
    case True
    then show ?thesis by (simp add: findVertex_def findVertexHelper_def)
  next
    case False
    then have "findVertexLoop VerEq v (m_vertex_node_list g) 0 < length (m_vertex_node_list g)"
      by (rule findVertexLoop_bound)
    then have "m_vertex_node_list g ! findVertexLoop VerEq v (m_vertex_node_list g) 0
                 \<in> set (m_vertex_node_list g)" by simp
    with assms(2) have "\<not> VerEq (vertex (m_vertex_node_list g ! findVertexLoop VerEq v (m_vertex_node_list g) 0)) v"
      by blast
    with False show ?thesis by (simp add: findVertex_def findVertexHelper_def)
  qed
qed

lemma findEdgeLoop_Suc:
  "findEdgeLoop to es (Suc k) = Suc (findEdgeLoop to es k)"
  by (induction to es k rule: findEdgeLoop.induct) auto

lemma findEdgeLoop_bound:
  "es \<noteq> [] \<Longrightarrow> findEdgeLoop to es 0 < length es"
proof (induction es)
  case Nil
  then show ?case by simp
next
  case (Cons e es)
  then show ?case
    by (cases es) (auto simp: findEdgeLoop_Suc)
qed

lemma findEdgeLoop_before:
  "j < findEdgeLoop to es 0 \<Longrightarrow> vertex_node (es ! j) \<noteq> to"
proof (induction es arbitrary: j)
  case Nil
  then show ?case by simp
next
  case (Cons e es)
  show ?case
  proof (cases es)
    case Nil
    with Cons.prems show ?thesis by simp
  next
    case (Cons e' es')
    with Cons.prems Cons.IH show ?thesis
      by (cases j) (auto simp: findEdgeLoop_Suc split: if_splits)
  qed
qed

lemma findEdgeLoop_stop:
  "es \<noteq> [] \<Longrightarrow>
   vertex_node (es ! findEdgeLoop to es 0) = to \<or> Suc (findEdgeLoop to es 0) = length es"
proof (induction es)
  case Nil
  then show ?case by simp
next
  case (Cons e es)
  show ?case
  proof (cases es)
    case Nil
    then show ?thesis by simp
  next
    case (Cons e' es')
    with Cons.IH show ?thesis
      by (auto simp: findEdgeLoop_Suc)
  qed
qed

lemma findEdgeLoop_found:
  assumes "e \<in> set es" "vertex_node e = to"
  shows "vertex_node (es ! findEdgeLoop to es 0) = to"
proof -
  from assms(1) have ne: "es \<noteq> []" by auto
  from assms(1) obtain j where j: "j < length es" "es ! j = e"
    by (auto simp: in_set_conv_nth)
  show ?thesis
  proof (rule ccontr)
    assume no: "\<not> ?thesis"
    with findEdgeLoop_stop [OF ne, of to]
    have last: "Suc (findEdgeLoop to es 0) = length es" by blast
    from no j assms(2) have "j \<noteq> findEdgeLoop to es 0" by auto
    with j(1) last have "j < findEdgeLoop to es 0" by simp
    from findEdgeLoop_before [OF this] j(2) assms(2) show False by simp
  qed
qed

lemma findEdgeLoop_missing:
  assumes "es \<noteq> []" "\<forall>e\<in>set es. vertex_node e \<noteq> to"
  shows "Suc (findEdgeLoop to es 0) = length es"
  using findEdgeLoop_stop [OF assms(1), of to] findEdgeLoop_bound [OF assms(1), of to]
    assms(2) by (auto simp: all_set_conv_all_nth)

lemma addEdgeHelper_found:
  assumes "e \<in> set (edge_list (m_vertex_node_list g ! from))" "vertex_node e = to"
  shows "addEdgeHelper Weighted g from to w =
           (g, \<lparr>m_vertex_node_e = Some from,
                m_edge_node = Some (from, findEdgeLoop to (edge_list (m_vertex_node_list g ! from)) 0)\<rparr>,
            False)"
proof -
  from assms(1) have ne: "edge_list (m_vertex_node_list g ! from) \<noteq> []" by auto
  from findEdgeLoop_found [OF assms] ne show ?thesis
    by (simp add: addEdgeHelper_def findEdgeHelper_def)
qed

lemma addEdgeHelper_missing:
  assumes "\<forall>e\<in>set (edge_list (m_vertex_node_list g ! from)). vertex_node e \<noteq> to"
  shows "addEdgeHelper Weighted g from to w =
           (set_edge_list g from
              (edge_list (m_vertex_node_list g ! from) @ [setEdgeWeight Weighted (new_EdgeNode to) w]),
            \<lparr>m_vertex_node_e = Some from,
             m_edge_node = Some (from, length (edge_list (m_vertex_node_list g ! from)))\<rparr>,
            True)"
proof (cases "edge_list (m_vertex_node_list g ! from) = []")
  case True
  then show ?thesis by (simp add: addEdgeHelper_def)
next
  case False
  from findEdgeLoop_missing [OF False assms]
  have last: "Suc (findEdgeLoop to (edge_list (m_vertex_node_list g ! from)) 0) =
              length (edge_list (m_vertex_node_list g ! from))" .
  then have "findEdgeLoop to (edge_list (m_vertex_node_list g ! from)) 0 <
              length (edge_list (m_vertex_node_list g ! from))" by simp
  then have "edge_list (m_vertex_node_list g ! from) !
               findEdgeLoop to (edge_list (m_vertex_node_list g ! from)) 0
             \<in> set (edge_list (m_vertex_node_list g ! from))" by simp
  with assms have "vertex_node (edge_list (m_vertex_node_list g ! from) !
               findEdgeLoop to (edge_list (m_vertex_node_list g ! from)) 0) \<noteq> to" by blast
  with False last show ?thesis
    by (simp add: addEdgeHelper_def findEdgeHelper_def)
qed

subsection \<open>Evaluation on concrete graphs\<close>

lemmas graph_defs = Graph_empty_def addVertex_def findVertexHelper_def findVertex_def
  findEdgeHelper_def addEdgeHelper_def addEdgeCaller_def addEdge_def findEdge_def
  new_VertexNode_def new_EdgeNode_def setEdgeWeight_def set_edge_list_def get0_def get1_def
  get_last_def destroyGraph_def operator_assign_def Graph_copy_def Graph_of_edges_def

lemma Graph_of_edges_example: "Graph_of_edges False True (=) [(1::int, 2, 5)] =
  \<lparr>m_vertex_node_list =
     [\<lparr>vertex = 1, edge_list = [\<lparr>weight = 5, vertex_node = 1\<rparr>]\<rparr>,
      \<lparr>vertex = 2, edge_list = [\<lparr>weight = 5, vertex_node = 0\<rparr>]\<rparr>],
     m_size = 2\<rparr>"
  by (simp add: graph_defs)

lemma Graph_of_edges_reachable:
  "reachable Directed Weighted VerEq (Graph_of_edges Directed Weighted VerEq es)"
proof -
  have "reachable Directed Weighted VerEq g \<Longrightarrow>
        reachable Directed Weighted VerEq (addEdge_list Directed Weighted VerEq g es)" for g
    by (induction es arbitrary: g) (auto intro: reachable_addEdge)
  from this [OF reachable_empty] show ?thesis
    unfolding Graph_of_edges_def .
qed

subsection \<open>Edge lists and the vertex count\<close>

lemma set_edge_list_length [simp]:
  "length (m_vertex_node_list (set_edge_list g f es)) = length (m_vertex_node_list g)"
  by (simp add: set_edge_list_def)

lemma set_edge_list_size [simp]:
  "m_size (set_edge_list g f es) = m_size g"
  by (simp add: set_edge_list_def)

lemma set_edge_list_vertex [simp]:
  "vertex (m_vertex_node_list (set_edge_list g f es) ! i) = vertex (m_vertex_node_list g ! i)"
  by (cases "f < length (m_vertex_node_list g)")
     (auto simp: set_edge_list_def nth_list_update list_update_beyond)

lemma set_edge_list_edges:
  "f < length (m_vertex_node_list g) \<Longrightarrow>
   edge_list (m_vertex_node_list (set_edge_list g f es) ! i) =
     (if i = f then es else edge_list (m_vertex_node_list g ! i))"
  by (auto simp: set_edge_list_def nth_list_update)

lemma addEdgeHelper_length [simp]:
  "length (m_vertex_node_list (fst (addEdgeHelper Weighted g from to w))) =
   length (m_vertex_node_list g)"
  by (simp add: addEdgeHelper_def split: option.splits)

lemma addEdgeHelper_size [simp]:
  "m_size (fst (addEdgeHelper Weighted g from to w)) = m_size g"
  by (simp add: addEdgeHelper_def split: option.splits)

lemma addEdgeHelper_vertex [simp]:
  "vertex (m_vertex_node_list (fst (addEdgeHelper Weighted g from to w)) ! i) =
   vertex (m_vertex_node_list g ! i)"
  by (simp add: addEdgeHelper_def split: option.splits)

lemma addVertex_cases:
  assumes "symp VerEq"
  obtains (found) n where "n \<in> set (m_vertex_node_list g)" "VerEq (vertex n) v"
      "addVertex VerEq g v =
         (g, VertexIter (Some (findVertexLoop VerEq v (m_vertex_node_list g) 0)), False)"
  | (missing) "\<forall>n\<in>set (m_vertex_node_list g). \<not> VerEq (vertex n) v"
      "addVertex VerEq g v =
         (g\<lparr>m_vertex_node_list := m_vertex_node_list g @ [new_VertexNode v],
            m_size := m_size g + 1\<rparr>,
          VertexIter (Some (length (m_vertex_node_list g))), True)"
  using addVertex_found(1) [OF assms] addVertex_missing(1) [OF assms] by blast

lemma addVertex_count_ok:
  assumes "symp VerEq" "count_ok g"
  shows "count_ok (fst (addVertex VerEq g v))"
proof (rule addVertex_cases [OF assms(1), of g v])
  fix n
  assume "addVertex VerEq g v =
            (g, VertexIter (Some (findVertexLoop VerEq v (m_vertex_node_list g) 0)), False)"
  with assms(2) show ?thesis by simp
next
  assume "addVertex VerEq g v =
            (g\<lparr>m_vertex_node_list := m_vertex_node_list g @ [new_VertexNode v],
               m_size := m_size g + 1\<rparr>,
             VertexIter (Some (length (m_vertex_node_list g))), True)"
  with assms(2) show ?thesis by (simp add: count_ok_def)
qed

lemma addVertex_list_count_ok:
  "symp VerEq \<Longrightarrow> count_ok g \<Longrightarrow> count_ok (addVertex_list VerEq g vs)"
  by (induction vs arbitrary: g) (auto simp: addVertex_count_ok)

lemma addEdgeHelper_count_ok:
  "count_ok g \<Longrightarrow> count_ok (fst (addEdgeHelper Weighted g from to w))"
  by (simp add: count_ok_def)

lemma addEdge_count_ok:
  assumes "symp VerEq" "count_ok g"
  shows "count_ok (fst (addEdge Directed Weighted VerEq g e))"
proof -
  have "count_ok (fst (addVertex VerEq (fst (addVertex VerEq g (get0 e))) (get1 e)))"
    by (intro addVertex_count_ok assms)
  then show ?thesis
    by (auto simp: addEdge_def addEdgeCaller_def Let_def addEdgeHelper_count_ok
             split: option.splits)
qed

lemma addEdge_list_count_ok:
  "symp VerEq \<Longrightarrow> count_ok g \<Longrightarrow> count_ok (addEdge_list Directed Weighted VerEq g es)"
  by (induction es arbitrary: g) (auto simp: addEdge_count_ok)

lemma copy_edges_count_ok:
  "symp VerEq \<Longrightarrow> count_ok this \<Longrightarrow>
   count_ok (copy_edges Directed Weighted VerEq g v es this)"
  by (induction es arbitrary: this) (auto simp: addEdge_count_ok)

lemma copy_vertices_count_ok:
  "symp VerEq \<Longrightarrow> count_ok this \<Longrightarrow>
   count_ok (copy_vertices Directed Weighted VerEq g v ns this)"
  by (induction ns arbitrary: this v) (auto simp: copy_edges_count_ok)

lemma destroyGraph_count_ok: "count_ok (destroyGraph g)"
  by (simp add: count_ok_def destroyGraph_def)

lemma Graph_empty_count_ok: "count_ok Graph_empty"
  by (simp add: count_ok_def Graph_empty_def)

subsection \<open>The state after an insertion\<close>

lemma findVertexLoop_first:
  assumes "k < length ns" "VerEq v (vertex (ns ! k))" "\<forall>j<k. \<not> VerEq v (vertex (ns ! j))"
  shows "findVertexLoop VerEq v ns 0 = k"
proof -
  from assms(1) have ne: "ns \<noteq> []" by auto
  let ?r = "findVertexLoop VerEq v ns 0"
  have "\<not> k < ?r" using findVertexLoop_before [of k VerEq v ns] assms(2) by blast
  moreover have "\<not> ?r < k"
  proof
    assume lt: "?r < k"
    with assms(3) have "\<not> VerEq v (vertex (ns ! ?r))" by blast
    with findVertexLoop_stop [OF ne, of VerEq v] have "Suc ?r = length ns" by blast
    with lt assms(1) show False by simp
  qed
  ultimately show ?thesis by simp
qed

lemma findEdgeLoop_first:
  assumes "k < length es" "vertex_node (es ! k) = to" "\<forall>j<k. vertex_node (es ! j) \<noteq> to"
  shows "findEdgeLoop to es 0 = k"
proof -
  from assms(1) have ne: "es \<noteq> []" by auto
  let ?r = "findEdgeLoop to es 0"
  have "\<not> k < ?r" using findEdgeLoop_before [of k to es] assms(2) by blast
  moreover have "\<not> ?r < k"
  proof
    assume lt: "?r < k"
    with assms(3) have "vertex_node (es ! ?r) \<noteq> to" by blast
    with findEdgeLoop_stop [OF ne, of to] have "Suc ?r = length es" by blast
    with lt assms(1) show False by simp
  qed
  ultimately show ?thesis by simp
qed

text \<open>What the two insertions do to the state.\<close>

lemma addVertex_state:
  assumes "symp VerEq"
  shows "fst (addVertex VerEq g v) =
           (if \<exists>n\<in>set (m_vertex_node_list g). VerEq (vertex n) v then g else append_vertex g v)"
proof (cases "\<exists>n\<in>set (m_vertex_node_list g). VerEq (vertex n) v")
  case True
  then obtain n where "n \<in> set (m_vertex_node_list g)" "VerEq (vertex n) v" by blast
  from addVertex_found(1) [OF assms this] True show ?thesis by simp
next
  case False
  then have "\<forall>n\<in>set (m_vertex_node_list g). \<not> VerEq (vertex n) v" by blast
  from addVertex_missing(1) [OF assms this] False show ?thesis
    by (simp add: append_vertex_def)
qed

lemma addEdgeHelper_state:
  "fst (addEdgeHelper Weighted g from to w) =
     (if to \<in> dests g from then g
      else append_edge g from (setEdgeWeight Weighted (new_EdgeNode to) w))"
proof (cases "to \<in> dests g from")
  case True
  then obtain e where "e \<in> set (edge_list (m_vertex_node_list g ! from))" "vertex_node e = to"
    by (auto simp: dests_def)
  from addEdgeHelper_found [OF this] True show ?thesis by simp
next
  case False
  then have "\<forall>e\<in>set (edge_list (m_vertex_node_list g ! from)). vertex_node e \<noteq> to"
    by (auto simp: dests_def)
  from addEdgeHelper_missing [OF this] False show ?thesis
    by (simp add: append_edge_def)
qed

lemma addEdgeHelper_flag:
  "snd (snd (addEdgeHelper Weighted g from to w)) = (to \<notin> dests g from)"
proof (cases "to \<in> dests g from")
  case True
  then obtain e where "e \<in> set (edge_list (m_vertex_node_list g ! from))" "vertex_node e = to"
    by (auto simp: dests_def)
  from addEdgeHelper_found [OF this] True show ?thesis by simp
next
  case False
  then have "\<forall>e\<in>set (edge_list (m_vertex_node_list g ! from)). vertex_node e \<noteq> to"
    by (auto simp: dests_def)
  from addEdgeHelper_missing [OF this] False show ?thesis by simp
qed

text \<open>The state after an append.\<close>

lemma append_vertex_list [simp]:
  "m_vertex_node_list (append_vertex g v) = m_vertex_node_list g @ [new_VertexNode v]"
  by (simp add: append_vertex_def)

lemma append_vertex_size [simp]: "m_size (append_vertex g v) = Suc (m_size g)"
  by (simp add: append_vertex_def)

lemma append_edge_length [simp]:
  "length (m_vertex_node_list (append_edge g f e)) = length (m_vertex_node_list g)"
  by (simp add: append_edge_def)

lemma append_edge_size [simp]: "m_size (append_edge g f e) = m_size g"
  by (simp add: append_edge_def)

lemma append_edge_vertex [simp]:
  "vertex (m_vertex_node_list (append_edge g f e) ! i) = vertex (m_vertex_node_list g ! i)"
  by (simp add: append_edge_def)

lemma append_edge_edges:
  "f < length (m_vertex_node_list g) \<Longrightarrow>
   edge_list (m_vertex_node_list (append_edge g f e) ! i) =
     (if i = f then edge_list (m_vertex_node_list g ! f) @ [e]
      else edge_list (m_vertex_node_list g ! i))"
  by (simp add: append_edge_def set_edge_list_edges)

lemma append_edge_dests:
  "f < length (m_vertex_node_list g) \<Longrightarrow>
   dests (append_edge g f e) i = (if i = f then insert (vertex_node e) (dests g f) else dests g i)"
  by (auto simp: dests_def append_edge_edges)

lemma append_vertex_nth:
  "i < length (m_vertex_node_list g) \<Longrightarrow>
   m_vertex_node_list (append_vertex g v) ! i = m_vertex_node_list g ! i"
  by (simp add: nth_append)

lemma append_vertex_last:
  "m_vertex_node_list (append_vertex g v) ! length (m_vertex_node_list g) = new_VertexNode v"
  by simp

lemma append_vertex_dests:
  "i < length (m_vertex_node_list g) \<Longrightarrow> dests (append_vertex g v) i = dests g i"
  by (simp add: dests_def nth_append)

lemma append_vertex_dests_last:
  "dests (append_vertex g v) (length (m_vertex_node_list g)) = {}"
  by (simp add: dests_def new_VertexNode_def)

text \<open>Appending a vertex record.\<close>

lemma append_vertex_count_ok: "count_ok g \<Longrightarrow> count_ok (append_vertex g v)"
  by (simp add: count_ok_def)

lemma append_vertex_distinct:
  assumes "symp VerEq" "vertices_distinct VerEq g"
    "\<forall>n\<in>set (m_vertex_node_list g). \<not> VerEq (vertex n) v"
  shows "vertices_distinct VerEq (append_vertex g v)"
proof -
  have no: "\<not> VerEq (vertex (m_vertex_node_list g ! i)) v \<and> \<not> VerEq v (vertex (m_vertex_node_list g ! i))"
    if "i < length (m_vertex_node_list g)" for i
    using assms(1,3) that by (meson nth_mem sympD)
  show ?thesis
    unfolding vertices_distinct_def
  proof (intro allI impI)
    fix i j
    assume i: "i < length (m_vertex_node_list (append_vertex g v))"
      and j: "j < length (m_vertex_node_list (append_vertex g v))"
      and eq: "VerEq (vertex (m_vertex_node_list (append_vertex g v) ! i))
                 (vertex (m_vertex_node_list (append_vertex g v) ! j))"
    show "i = j"
    proof (cases "i < length (m_vertex_node_list g)")
      case True
      note iT = this
      show ?thesis
      proof (cases "j < length (m_vertex_node_list g)")
        case True
        with iT eq assms(2) show ?thesis
          by (simp add: vertices_distinct_def nth_append)
      next
        case False
        with j have "j = length (m_vertex_node_list g)" by simp
        with iT eq no [OF iT] show ?thesis
          by (simp add: nth_append new_VertexNode_def)
      qed
    next
      case False
      with i have iE: "i = length (m_vertex_node_list g)" by simp
      show ?thesis
      proof (cases "j < length (m_vertex_node_list g)")
        case True
        with iE eq no [OF True] show ?thesis
          by (simp add: nth_append new_VertexNode_def)
      next
        case False
        with j iE show ?thesis by simp
      qed
    qed
  qed
qed

lemma append_vertex_edges_live: "edges_live g \<Longrightarrow> edges_live (append_vertex g v)"
  by (auto simp: edges_live_def nth_append new_VertexNode_def less_Suc_eq)

lemma append_vertex_edges_distinct: "edges_distinct g \<Longrightarrow> edges_distinct (append_vertex g v)"
  by (auto simp: edges_distinct_def nth_append new_VertexNode_def less_Suc_eq)

lemma append_vertex_mirrored:
  assumes "edges_live g" "mirrored g"
  shows "mirrored (append_vertex g v)"
  unfolding mirrored_def
proof (intro allI impI ballI)
  fix i e
  assume i: "i < length (m_vertex_node_list (append_vertex g v))"
    and e: "e \<in> set (edge_list (m_vertex_node_list (append_vertex g v) ! i))"
  from e have "i \<noteq> length (m_vertex_node_list g)"
    by (auto simp: new_VertexNode_def)
  with i have il: "i < length (m_vertex_node_list g)" by simp
  with e have e': "e \<in> set (edge_list (m_vertex_node_list g ! i))"
    by (simp add: nth_append)
  with assms(1) il have "vertex_node e < length (m_vertex_node_list g)"
    by (auto simp: edges_live_def)
  with assms(2) il e'
  show "\<exists>e'\<in>set (edge_list (m_vertex_node_list (append_vertex g v) ! vertex_node e)).
          vertex_node e' = i \<and> weight e' = weight e"
    by (simp add: mirrored_def nth_append)
qed

lemma append_vertex_inv:
  assumes "symp VerEq" "graph_inv Directed VerEq g"
    "\<forall>n\<in>set (m_vertex_node_list g). \<not> VerEq (vertex n) v"
  shows "graph_inv Directed VerEq (append_vertex g v)"
  using assms
  by (simp add: graph_inv_def append_vertex_count_ok append_vertex_distinct
        append_vertex_edges_live append_vertex_edges_distinct append_vertex_mirrored)

lemma addVertex_inv:
  assumes "symp VerEq" "graph_inv Directed VerEq g"
  shows "graph_inv Directed VerEq (fst (addVertex VerEq g v))"
  using assms append_vertex_inv [OF assms, of v]
  by (auto simp: addVertex_state)

text \<open>Appending an edge record.\<close>

lemma append_edge_count_ok: "count_ok g \<Longrightarrow> count_ok (append_edge g f e)"
  by (simp add: count_ok_def)

lemma append_edge_distinct:
  "vertices_distinct VerEq g \<Longrightarrow> vertices_distinct VerEq (append_edge g f e)"
  by (simp add: vertices_distinct_def)

lemma append_edge_edges_live:
  "edges_live g \<Longrightarrow> f < length (m_vertex_node_list g) \<Longrightarrow>
   vertex_node e < length (m_vertex_node_list g) \<Longrightarrow> edges_live (append_edge g f e)"
  by (auto simp: edges_live_def append_edge_edges)

lemma append_edge_edges_distinct:
  "edges_distinct g \<Longrightarrow> f < length (m_vertex_node_list g) \<Longrightarrow>
   vertex_node e \<notin> dests g f \<Longrightarrow> edges_distinct (append_edge g f e)"
  by (auto simp: edges_distinct_def append_edge_edges dests_def)

subsection \<open>Invariants of the reachable states\<close>

lemma new_edge_vertex_node [simp]:
  "vertex_node (setEdgeWeight Weighted (new_EdgeNode to) w) = to"
  by (simp add: setEdgeWeight_def new_EdgeNode_def)

lemma new_edge_weight [simp]:
  "weight (setEdgeWeight Weighted (new_EdgeNode to) w) = (if Weighted then w else 0)"
  by (simp add: setEdgeWeight_def new_EdgeNode_def)

lemma append_edge_mirrored_loop:
  assumes "mirrored g" "f < length (m_vertex_node_list g)" "vertex_node e = f"
  shows "mirrored (append_edge g f e)"
  unfolding mirrored_def
proof (intro allI impI ballI)
  fix i x
  assume i: "i < length (m_vertex_node_list (append_edge g f e))"
    and x: "x \<in> set (edge_list (m_vertex_node_list (append_edge g f e) ! i))"
  from i have il: "i < length (m_vertex_node_list g)" by simp
  show "\<exists>e'\<in>set (edge_list (m_vertex_node_list (append_edge g f e) ! vertex_node x)).
          vertex_node e' = i \<and> weight e' = weight x"
  proof (cases "x \<in> set (edge_list (m_vertex_node_list g ! i))")
    case True
    with assms(1) il obtain e' where
      "e' \<in> set (edge_list (m_vertex_node_list g ! vertex_node x))"
      "vertex_node e' = i" "weight e' = weight x"
      by (auto simp: mirrored_def)
    with assms(2) show ?thesis
      by (auto simp: append_edge_edges)
  next
    case False
    with x assms(2) have "i = f" "x = e"
      by (auto simp: append_edge_edges split: if_splits)
    with assms(2,3) show ?thesis
      by (auto simp: append_edge_edges)
  qed
qed

lemma append_edge_mirrored_pair:
  assumes "mirrored g" "f < length (m_vertex_node_list g)" "t < length (m_vertex_node_list g)"
    "f \<noteq> t" "vertex_node ef = f" "vertex_node et = t" "weight ef = weight et"
  shows "mirrored (append_edge (append_edge g t ef) f et)"
  unfolding mirrored_def
proof (intro allI impI ballI)
  let ?g = "append_edge (append_edge g t ef) f et"
  have edges: "edge_list (m_vertex_node_list ?g ! i) =
      (if i = f then edge_list (m_vertex_node_list g ! f) @ [et]
       else if i = t then edge_list (m_vertex_node_list g ! t) @ [ef]
       else edge_list (m_vertex_node_list g ! i))" for i
    using assms(2,3,4) by (simp add: append_edge_edges)
  fix i x
  assume i: "i < length (m_vertex_node_list ?g)"
    and x: "x \<in> set (edge_list (m_vertex_node_list ?g ! i))"
  from i have il: "i < length (m_vertex_node_list g)" by simp
  show "\<exists>e'\<in>set (edge_list (m_vertex_node_list ?g ! vertex_node x)).
          vertex_node e' = i \<and> weight e' = weight x"
  proof (cases "x \<in> set (edge_list (m_vertex_node_list g ! i))")
    case True
    with assms(1) il obtain e' where
      "e' \<in> set (edge_list (m_vertex_node_list g ! vertex_node x))"
      "vertex_node e' = i" "weight e' = weight x"
      by (auto simp: mirrored_def)
    then show ?thesis
      by (auto simp: edges)
  next
    case False
    with x have "(i = f \<and> x = et) \<or> (i = t \<and> x = ef)"
      by (auto simp: edges split: if_splits)
    with assms(4,5,6,7) show ?thesis
      by (auto simp: edges)
  qed
qed

text \<open>The pointers \<open>addVertex\<close> returns.\<close>

lemma addVertex_ptr:
  assumes "symp VerEq" "reflp VerEq"
  shows "\<exists>i. fst (snd (addVertex VerEq g v)) = VertexIter (Some i) \<and>
             i < length (m_vertex_node_list (fst (addVertex VerEq g v))) \<and>
             VerEq (vertex (m_vertex_node_list (fst (addVertex VerEq g v)) ! i)) v \<and>
             (\<forall>j<i. \<not> VerEq (vertex (m_vertex_node_list (fst (addVertex VerEq g v)) ! j)) v)"
proof (cases "\<exists>n\<in>set (m_vertex_node_list g). VerEq (vertex n) v")
  case True
  then obtain n where n: "n \<in> set (m_vertex_node_list g)" "VerEq (vertex n) v" by blast
  from n(1) have "m_vertex_node_list g \<noteq> []" by auto
  then have b: "findVertexLoop VerEq v (m_vertex_node_list g) 0 < length (m_vertex_node_list g)"
    by (rule findVertexLoop_bound)
  have "\<not> VerEq (vertex (m_vertex_node_list g ! j)) v"
    if "j < findVertexLoop VerEq v (m_vertex_node_list g) 0" for j
    using findVertexLoop_before [OF that] assms(1) by (auto dest: sympD)
  with addVertex_found [OF assms(1) n] b show ?thesis by simp
next
  case False
  then have no: "\<forall>n\<in>set (m_vertex_node_list g). \<not> VerEq (vertex n) v" by blast
  from assms(2) have "VerEq v v" by (rule reflpD)
  with addVertex_missing(1) [OF assms(1) no] no show ?thesis
    by (simp add: nth_append new_VertexNode_def)
qed

lemma addVertex_length:
  "symp VerEq \<Longrightarrow>
   length (m_vertex_node_list g) \<le> length (m_vertex_node_list (fst (addVertex VerEq g v)))"
  by (simp add: addVertex_state)

lemma addVertex_nth:
  "symp VerEq \<Longrightarrow> i < length (m_vertex_node_list g) \<Longrightarrow>
   m_vertex_node_list (fst (addVertex VerEq g v)) ! i = m_vertex_node_list g ! i"
  by (simp add: addVertex_state nth_append)

text \<open>\<open>addEdgeHelper\<close> on two records of the graph.\<close>

lemma addEdgeHelper_inv_directed:
  assumes "graph_inv True VerEq g" "f < length (m_vertex_node_list g)"
    "t < length (m_vertex_node_list g)"
  shows "graph_inv True VerEq (fst (addEdgeHelper Weighted g f t w))"
  using assms
  by (simp add: addEdgeHelper_state graph_inv_def append_edge_count_ok append_edge_distinct
        append_edge_edges_live append_edge_edges_distinct)

lemma mirrored_dests:
  assumes "mirrored g" "i < length (m_vertex_node_list g)" "j \<in> dests g i"
  shows "i \<in> dests g j"
  using assms by (force simp: mirrored_def dests_def)

lemma addEdgeHelper_mirrored:
  assumes "mirrored g" "f < length (m_vertex_node_list g)" "t < length (m_vertex_node_list g)"
  shows "mirrored (fst (addEdgeHelper Weighted (fst (addEdgeHelper Weighted g t f w)) f t w))"
proof (cases "f = t")
  case True
  with assms show ?thesis
    by (simp add: addEdgeHelper_state append_edge_dests append_edge_mirrored_loop)
next
  case False
  show ?thesis
  proof (cases "t \<in> dests g f")
    case True
    with mirrored_dests [OF assms(1,2)] have "f \<in> dests g t" by blast
    with True assms(1) show ?thesis by (simp add: addEdgeHelper_state)
  next
    case no: False
    with mirrored_dests [OF assms(1,3), of f] have "f \<notin> dests g t" by blast
    with no False assms show ?thesis
      by (simp add: addEdgeHelper_state append_edge_dests append_edge_mirrored_pair)
  qed
qed

lemma graph_inv_directed: "graph_inv Directed VerEq g \<Longrightarrow> graph_inv True VerEq g"
  by (simp add: graph_inv_def)

lemma addEdge_inv:
  assumes "symp VerEq" "reflp VerEq" "graph_inv Directed VerEq g"
  shows "graph_inv Directed VerEq (fst (addEdge Directed Weighted VerEq g e))"
proof -
  let ?g1 = "fst (addVertex VerEq g (get0 e))"
  let ?g2 = "fst (addVertex VerEq ?g1 (get1 e))"
  from addVertex_ptr [OF assms(1,2), of g "get0 e"] obtain i where
    i: "fst (snd (addVertex VerEq g (get0 e))) = VertexIter (Some i)"
       "i < length (m_vertex_node_list ?g1)" by blast
  from addVertex_ptr [OF assms(1,2), of ?g1 "get1 e"] obtain j where
    j: "fst (snd (addVertex VerEq ?g1 (get1 e))) = VertexIter (Some j)"
       "j < length (m_vertex_node_list ?g2)" by blast
  from i(2) addVertex_length [OF assms(1), of ?g1 "get1 e"]
  have i2: "i < length (m_vertex_node_list ?g2)" by simp
  have inv2: "graph_inv Directed VerEq ?g2"
    by (intro addVertex_inv assms)
  then have d2: "graph_inv True VerEq ?g2" by (rule graph_inv_directed)
  show ?thesis
  proof (cases Directed)
    case True
    with addEdgeHelper_inv_directed [OF d2 i2 j(2)] i(1) j(1) show ?thesis
      by (simp add: addEdge_def addEdgeCaller_def Let_def)
  next
    case False
    let ?g3 = "fst (addEdgeHelper Weighted ?g2 j i (get_last e))"
    let ?g4 = "fst (addEdgeHelper Weighted ?g3 i j (get_last e))"
    have d3: "graph_inv True VerEq ?g3"
      by (rule addEdgeHelper_inv_directed [OF d2 j(2) i2])
    have d4: "graph_inv True VerEq ?g4"
      by (rule addEdgeHelper_inv_directed [OF d3]) (simp_all add: i2 j(2))
    from inv2 False have "mirrored ?g2" by (simp add: graph_inv_def)
    then have "mirrored ?g4" by (rule addEdgeHelper_mirrored [OF _ i2 j(2)])
    with d4 have "graph_inv Directed VerEq ?g4" by (simp add: graph_inv_def)
    with False i(1) j(1) show ?thesis
      by (simp add: addEdge_def addEdgeCaller_def Let_def)
  qed
qed

lemma Graph_empty_inv: "graph_inv Directed VerEq Graph_empty"
  by (simp add: graph_inv_def count_ok_def vertices_distinct_def edges_live_def
        edges_distinct_def mirrored_def Graph_empty_def)

lemma reachable_inv:
  assumes "symp VerEq" "reflp VerEq" "reachable Directed Weighted VerEq g"
  shows "graph_inv Directed VerEq g"
  using assms(3)
proof (induction rule: reachable.induct)
  case reachable_empty
  show ?case by (rule Graph_empty_inv)
next
  case (reachable_addVertex g v)
  then show ?case by (intro addVertex_inv assms)
next
  case (reachable_addEdge g e)
  then show ?case by (intro addEdge_inv assms)
qed

text \<open>Teardown, batch insertion and copy lead to reachable states as well.\<close>

lemma destroyGraph_empty: "destroyGraph g = Graph_empty"
  by (simp add: destroyGraph_def Graph_empty_def)

lemma destroyGraph_reachable: "reachable Directed Weighted VerEq (destroyGraph g)"
  unfolding destroyGraph_empty by (rule reachable_empty)

lemma addVertex_list_reachable:
  "reachable Directed Weighted VerEq g \<Longrightarrow>
   reachable Directed Weighted VerEq (addVertex_list VerEq g vs)"
  by (induction vs arbitrary: g) (auto intro: reachable_addVertex)

lemma addEdge_list_reachable:
  "reachable Directed Weighted VerEq g \<Longrightarrow>
   reachable Directed Weighted VerEq (addEdge_list Directed Weighted VerEq g es)"
  by (induction es arbitrary: g) (auto intro: reachable_addEdge)

lemma copy_edges_reachable:
  "reachable Directed Weighted VerEq this \<Longrightarrow>
   reachable Directed Weighted VerEq (copy_edges Directed Weighted VerEq g v es this)"
  by (induction es arbitrary: this) (auto intro: reachable_addEdge)

lemma copy_vertices_reachable:
  "reachable Directed Weighted VerEq this \<Longrightarrow>
   reachable Directed Weighted VerEq (copy_vertices Directed Weighted VerEq g v ns this)"
  by (induction ns arbitrary: this v) (auto intro: copy_edges_reachable)

lemma operator_assign_reachable:
  "reachable Directed Weighted VerEq (operator_assign Directed Weighted VerEq this g)"
  unfolding operator_assign_def
  by (intro copy_vertices_reachable destroyGraph_reachable)

lemma Graph_copy_reachable:
  "reachable Directed Weighted VerEq (Graph_copy Directed Weighted VerEq g)"
  unfolding Graph_copy_def by (rule operator_assign_reachable)

subsection \<open>Lookup\<close>

lemma findVertex_Some:
  "findVertex VerEq g v = VertexIter (Some i) \<longleftrightarrow>
     m_vertex_node_list g \<noteq> [] \<and> i = findVertexLoop VerEq v (m_vertex_node_list g) 0 \<and>
     VerEq (vertex (m_vertex_node_list g ! i)) v"
  by (auto simp: findVertex_def findVertexHelper_def end_iter_def)

lemma findVertex_cases:
  "findVertex VerEq g v = end_iter \<or>
   (\<exists>i. findVertex VerEq g v = VertexIter (Some i) \<and> i < length (m_vertex_node_list g) \<and>
        VerEq (vertex (m_vertex_node_list g ! i)) v)"
  by (auto simp: findVertex_def findVertexHelper_def end_iter_def findVertexLoop_bound)

lemma findVertex_first:
  assumes "symp VerEq" "i < length (m_vertex_node_list g)"
    "VerEq (vertex (m_vertex_node_list g ! i)) v"
    "\<forall>j<i. \<not> VerEq (vertex (m_vertex_node_list g ! j)) v"
  shows "findVertex VerEq g v = VertexIter (Some i)"
proof -
  from assms(1,3) have "VerEq v (vertex (m_vertex_node_list g ! i))" by (auto dest: sympD)
  moreover from assms(1,4) have "\<forall>j<i. \<not> VerEq v (vertex (m_vertex_node_list g ! j))"
    by (auto dest: sympD)
  ultimately have "findVertexLoop VerEq v (m_vertex_node_list g) 0 = i"
    using assms(2) by (intro findVertexLoop_first)
  with assms(2,3) show ?thesis by (auto simp: findVertex_Some)
qed

lemma addVertex_present:
  assumes "findVertex VerEq g v = VertexIter (Some i)"
  shows "addVertex VerEq g v = (g, VertexIter (Some i), False)"
  using assms by (auto simp: findVertex_Some addVertex_def findVertexHelper_def)

lemma findEdge_present:
  assumes "findVertex VerEq g (get0 e) = VertexIter (Some i)"
    "findVertex VerEq g (get1 e) = VertexIter (Some j)" "j \<in> dests g i"
  shows "findEdge VerEq g e =
           \<lparr>m_vertex_node_e = Some i,
            m_edge_node = Some (i, findEdgeLoop j (edge_list (m_vertex_node_list g ! i)) 0)\<rparr>"
proof -
  from assms(3) obtain x where x: "x \<in> set (edge_list (m_vertex_node_list g ! i))" "vertex_node x = j"
    by (auto simp: dests_def)
  from x(1) have "edge_list (m_vertex_node_list g ! i) \<noteq> []" by auto
  with findEdgeLoop_found [OF x] assms(1,2) show ?thesis
    by (simp add: findEdge_def findEdgeHelper_def Let_def)
qed

lemma findEdge_end_left:
  "findVertex VerEq g (get0 e) = end_iter \<Longrightarrow> m_edge_node (findEdge VerEq g e) = None"
  by (simp add: findEdge_def findEdgeHelper_def end_iter_def)

lemma findEdge_end_right:
  "findVertex VerEq g (get1 e) = end_iter \<Longrightarrow> m_edge_node (findEdge VerEq g e) = None"
  by (cases "m_vertex_node (findVertex VerEq g (get0 e))")
     (simp_all add: findEdge_def findEdgeHelper_def end_iter_def)

lemma findEdge_absent:
  assumes "findVertex VerEq g (get0 e) = VertexIter (Some i)"
    "findVertex VerEq g (get1 e) = VertexIter (Some j)" "j \<notin> dests g i"
  shows "m_edge_node (findEdge VerEq g e) = None"
proof (cases "edge_list (m_vertex_node_list g ! i) = []")
  case True
  with assms(1,2) show ?thesis
    by (simp add: findEdge_def findEdgeHelper_def)
next
  case False
  then have "findEdgeLoop j (edge_list (m_vertex_node_list g ! i)) 0 <
      length (edge_list (m_vertex_node_list g ! i))" by (rule findEdgeLoop_bound)
  then have "vertex_node (edge_list (m_vertex_node_list g ! i) !
      findEdgeLoop j (edge_list (m_vertex_node_list g ! i)) 0) \<in> dests g i"
    unfolding dests_def by (intro imageI nth_mem)
  with assms(3) have "vertex_node (edge_list (m_vertex_node_list g ! i) !
      findEdgeLoop j (edge_list (m_vertex_node_list g ! i)) 0) \<noteq> j" by auto
  with False assms(1,2) show ?thesis
    by (simp add: findEdge_def findEdgeHelper_def edge_end_def)
qed

lemma findEdge_not_end:
  "\<not> EdgeIter_eq (findEdge VerEq g e) edge_end \<longleftrightarrow>
     (\<exists>i j. findVertex VerEq g (get0 e) = VertexIter (Some i) \<and>
            findVertex VerEq g (get1 e) = VertexIter (Some j) \<and> j \<in> dests g i)"
proof
  assume ne: "\<not> EdgeIter_eq (findEdge VerEq g e) edge_end"
  then have some: "m_edge_node (findEdge VerEq g e) \<noteq> None"
    by (simp add: EdgeIter_eq_def edge_end_def)
  with findEdge_end_left [of VerEq g e] findVertex_cases [of VerEq g "get0 e"]
  obtain i where i: "findVertex VerEq g (get0 e) = VertexIter (Some i)" by auto
  from some findEdge_end_right [of VerEq g e] findVertex_cases [of VerEq g "get1 e"]
  obtain j where j: "findVertex VerEq g (get1 e) = VertexIter (Some j)" by auto
  have "j \<in> dests g i"
  proof (rule ccontr)
    assume "j \<notin> dests g i"
    from findEdge_absent [OF i j this] some show False by simp
  qed
  with i j show "\<exists>i j. findVertex VerEq g (get0 e) = VertexIter (Some i) \<and>
            findVertex VerEq g (get1 e) = VertexIter (Some j) \<and> j \<in> dests g i" by blast
next
  assume "\<exists>i j. findVertex VerEq g (get0 e) = VertexIter (Some i) \<and>
            findVertex VerEq g (get1 e) = VertexIter (Some j) \<and> j \<in> dests g i"
  then obtain i j where "findVertex VerEq g (get0 e) = VertexIter (Some i)"
    "findVertex VerEq g (get1 e) = VertexIter (Some j)" "j \<in> dests g i" by blast
  from findEdge_present [OF this] show "\<not> EdgeIter_eq (findEdge VerEq g e) edge_end"
    by (simp add: EdgeIter_eq_def edge_end_def)
qed

lemma addEdgeHelper_present:
  assumes "to \<in> dests g from"
  shows "addEdgeHelper Weighted g from to w =
           (g, \<lparr>m_vertex_node_e = Some from,
                m_edge_node = Some (from, findEdgeLoop to (edge_list (m_vertex_node_list g ! from)) 0)\<rparr>,
            False)"
proof -
  from assms obtain e where "e \<in> set (edge_list (m_vertex_node_list g ! from))" "vertex_node e = to"
    by (auto simp: dests_def)
  then show ?thesis by (rule addEdgeHelper_found)
qed

lemma equivp_symp: "equivp R \<Longrightarrow> symp R"
  by (auto elim: equivpE)

lemma equivp_reflp': "equivp R \<Longrightarrow> reflp R"
  by (auto elim: equivpE)

lemma addEdge_unfold:
  assumes "addVertex VerEq g (get0 e) = (g1, VertexIter (Some i), b1)"
    "addVertex VerEq g1 (get1 e) = (g2, VertexIter (Some j), b2)"
  shows "addEdge Directed Weighted VerEq g e =
           (if Directed then addEdgeHelper Weighted g2 i j (get_last e)
            else addEdgeHelper Weighted (fst (addEdgeHelper Weighted g2 j i (get_last e)))
                   i j (get_last e))"
  by (simp add: addEdge_def addEdgeCaller_def Let_def assms)

lemma findVertex_live:
  "findVertex VerEq g v = VertexIter (Some i) \<Longrightarrow> i < length (m_vertex_node_list g)"
  by (simp add: findVertex_Some findVertexLoop_bound)

lemma addEdgeHelper_absent:
  assumes "t \<notin> dests g f"
  shows "addEdgeHelper Weighted g f t w =
           (append_edge g f (setEdgeWeight Weighted (new_EdgeNode t) w),
            \<lparr>m_vertex_node_e = Some f,
             m_edge_node = Some (f, length (edge_list (m_vertex_node_list g ! f)))\<rparr>, True)"
proof -
  from assms have "\<forall>e\<in>set (edge_list (m_vertex_node_list g ! f)). vertex_node e \<noteq> t"
    by (auto simp: dests_def)
  from addEdgeHelper_missing [OF this] show ?thesis by (simp add: append_edge_def)
qed

lemma findEdgeLoop_append_new:
  assumes "t \<notin> vertex_node ` set es" "vertex_node x = t"
  shows "findEdgeLoop t (es @ [x]) 0 = length es"
proof (rule findEdgeLoop_first)
  show "length es < length (es @ [x])" by simp
  show "vertex_node ((es @ [x]) ! length es) = t" using assms(2) by simp
  show "\<forall>j<length es. vertex_node ((es @ [x]) ! j) \<noteq> t"
    using assms(1) by (auto simp: nth_append image_iff)
qed

subsection \<open>The two endpoints of an inserted edge\<close>

lemma addEdgeHelper_dests:
  assumes "f < length (m_vertex_node_list g)"
  shows "dests (fst (addEdgeHelper Weighted g f t w)) k =
           (if k = f then insert t (dests g f) else dests g k)"
  using assms by (auto simp: addEdgeHelper_state append_edge_dests)

lemma addEdgeHelper_cursor:
  assumes "f < length (m_vertex_node_list g)"
  shows "fst (snd (addEdgeHelper Weighted g f t w)) =
           \<lparr>m_vertex_node_e = Some f,
            m_edge_node = Some (f, findEdgeLoop t
              (edge_list (m_vertex_node_list (fst (addEdgeHelper Weighted g f t w)) ! f)) 0)\<rparr>"
proof (cases "t \<in> dests g f")
  case True
  from addEdgeHelper_present [OF this, of Weighted w] show ?thesis by simp
next
  case False
  have "findEdgeLoop t (edge_list (m_vertex_node_list g ! f) @
          [setEdgeWeight Weighted (new_EdgeNode t) w]) 0 =
        length (edge_list (m_vertex_node_list g ! f))"
    using False by (intro findEdgeLoop_append_new) (simp_all add: dests_def)
  with addEdgeHelper_absent [OF False, of Weighted w] assms show ?thesis
    by (simp add: append_edge_edges)
qed

lemma deref_findEdge:
  assumes "findVertex VerEq g (get0 e) = VertexIter (Some i)"
    "findVertex VerEq g (get1 e) = VertexIter (Some j)" "j \<in> dests g i"
  shows "EdgeIter_deref Weighted g (findEdge VerEq g e) =
           Returns (vertex (m_vertex_node_list g ! i), vertex (m_vertex_node_list g ! j),
             if Weighted
             then weight (edge_list (m_vertex_node_list g ! i) !
                    findEdgeLoop j (edge_list (m_vertex_node_list g ! i)) 0)
             else 0)"
proof -
  from assms(3) obtain x where x: "x \<in> set (edge_list (m_vertex_node_list g ! i))" "vertex_node x = j"
    by (auto simp: dests_def)
  from x(1) have "edge_list (m_vertex_node_list g ! i) \<noteq> []" by auto
  then have k: "findEdgeLoop j (edge_list (m_vertex_node_list g ! i)) 0 <
      length (edge_list (m_vertex_node_list g ! i))" by (rule findEdgeLoop_bound)
  note d = findEdgeLoop_found [OF x]
  note li = findVertex_live [OF assms(1)] and lj = findVertex_live [OF assms(2)]
  from findEdge_present [OF assms] k d li lj show ?thesis
    by (simp add: EdgeIter_deref_def live_vertex_def live_edge_def getTuple_def)
qed

lemma mirrored_weight:
  assumes "mirrored g" "edges_distinct g" "i < length (m_vertex_node_list g)"
    "j < length (m_vertex_node_list g)"
    "e \<in> set (edge_list (m_vertex_node_list g ! i))" "vertex_node e = j"
    "e' \<in> set (edge_list (m_vertex_node_list g ! j))" "vertex_node e' = i"
  shows "weight e' = weight e"
proof -
  from assms(1,3,5,6) obtain e'' where e'': "e'' \<in> set (edge_list (m_vertex_node_list g ! j))"
    "vertex_node e'' = i" "weight e'' = weight e"
    by (auto simp: mirrored_def)
  from assms(2,4) have "inj_on vertex_node (set (edge_list (m_vertex_node_list g ! j)))"
    by (simp add: edges_distinct_def distinct_map)
  with e''(1,2) assms(7,8) have "e' = e''" by (auto dest: inj_onD)
  with e''(3) show ?thesis by simp
qed

lemma findEdgeLoop_mem:
  assumes "t \<in> vertex_node ` set es"
  shows "es ! findEdgeLoop t es 0 \<in> set es" "vertex_node (es ! findEdgeLoop t es 0) = t"
proof -
  from assms obtain x where x: "x \<in> set es" "vertex_node x = t" by auto
  from x(1) have "es \<noteq> []" by auto
  then have "findEdgeLoop t es 0 < length es" by (rule findEdgeLoop_bound)
  then show "es ! findEdgeLoop t es 0 \<in> set es" by simp
  show "vertex_node (es ! findEdgeLoop t es 0) = t" by (rule findEdgeLoop_found [OF x])
qed

text \<open>The endpoints of an inserted edge, before and after.\<close>

lemma addVertex_absent_index:
  assumes "symp VerEq" "\<forall>n\<in>set (m_vertex_node_list g). \<not> VerEq (vertex n) v"
  shows "fst (snd (addVertex VerEq g v)) = VertexIter (Some (length (m_vertex_node_list g)))"
    and "fst (addVertex VerEq g v) = append_vertex g v"
  using addVertex_missing(1) [OF assms] by (simp_all add: append_vertex_def)

lemma addVertex_present_index:
  assumes "symp VerEq" "\<exists>n\<in>set (m_vertex_node_list g). VerEq (vertex n) v"
  shows "fst (snd (addVertex VerEq g v)) = findVertex VerEq g v"
    and "fst (addVertex VerEq g v) = g"
proof -
  from assms(2) obtain n where "n \<in> set (m_vertex_node_list g)" "VerEq (vertex n) v" by blast
  from addVertex_found [OF assms(1) this]
  show "fst (snd (addVertex VerEq g v)) = findVertex VerEq g v"
    and "fst (addVertex VerEq g v) = g" by simp_all
qed

lemma edges_live_dests:
  "edges_live g \<Longrightarrow> i < length (m_vertex_node_list g) \<Longrightarrow> j \<in> dests g i \<Longrightarrow>
   j < length (m_vertex_node_list g)"
  by (auto simp: edges_live_def dests_def)

lemma addVertex_dests:
  "symp VerEq \<Longrightarrow> i < length (m_vertex_node_list g) \<Longrightarrow>
   dests (fst (addVertex VerEq g v)) i = dests g i"
  by (simp add: addVertex_state append_vertex_dests)

text \<open>
  With \<open>i\<close> and \<open>j\<close> the records that the two calls of \<open>addVertex\<close> in \<open>addEdgeCaller\<close>
  return for \<open>a\<close> and \<open>b\<close>: record \<open>i\<close> has an edge to record \<open>j\<close> after the two calls
  exactly when \<open>findEdge\<close> finds the edge before them, and then the calls change nothing.
\<close>

lemma endpoints_edge:
  assumes sy: "symp VerEq" and live: "edges_live g"
    and pi: "fst (snd (addVertex VerEq g a)) = VertexIter (Some i)"
    and pj: "fst (snd (addVertex VerEq (fst (addVertex VerEq g a)) b)) = VertexIter (Some j)"
  shows "j \<in> dests (fst (addVertex VerEq (fst (addVertex VerEq g a)) b)) i \<longleftrightarrow>
           \<not> EdgeIter_eq (findEdge VerEq g (a, b, w)) edge_end"
    and "j \<in> dests (fst (addVertex VerEq (fst (addVertex VerEq g a)) b)) i \<Longrightarrow>
           fst (addVertex VerEq (fst (addVertex VerEq g a)) b) = g"
proof -
  let ?g1 = "fst (addVertex VerEq g a)"
  let ?g2 = "fst (addVertex VerEq ?g1 b)"
  have both: "(j \<in> dests ?g2 i \<longleftrightarrow> \<not> EdgeIter_eq (findEdge VerEq g (a, b, w)) edge_end) \<and>
              (j \<in> dests ?g2 i \<longrightarrow> ?g2 = g)"
  proof (cases "\<exists>n\<in>set (m_vertex_node_list g). VerEq (vertex n) a")
    case False
    then have no: "\<forall>n\<in>set (m_vertex_node_list g). \<not> VerEq (vertex n) a" by blast
    from addVertex_absent_index [OF sy no] pi
    have i: "i = length (m_vertex_node_list g)" and g1: "?g1 = append_vertex g a" by simp_all
    have "dests ?g1 i = {}" unfolding g1 i by (rule append_vertex_dests_last)
    moreover have "i < length (m_vertex_node_list ?g1)" unfolding g1 i by simp
    then have "dests ?g2 i = dests ?g1 i" by (rule addVertex_dests [OF sy])
    ultimately have d: "j \<notin> dests ?g2 i" by simp
    from addVertex_missing(2) [OF sy no] have "findVertex VerEq g (get0 (a, b, w)) = end_iter"
      by (simp add: get0_def)
    from findEdge_end_left [OF this] have "EdgeIter_eq (findEdge VerEq g (a, b, w)) edge_end"
      by (simp add: EdgeIter_eq_def edge_end_def)
    with d show ?thesis by simp
  next
    case True
    note g1 = addVertex_present_index(2) [OF sy True]
    from addVertex_present_index(1) [OF sy True] pi
    have fa: "findVertex VerEq g a = VertexIter (Some i)" by simp
    note li = findVertex_live [OF fa]
    show ?thesis
    proof (cases "\<exists>n\<in>set (m_vertex_node_list g). VerEq (vertex n) b")
      case False
      then have no: "\<forall>n\<in>set (m_vertex_node_list g). \<not> VerEq (vertex n) b" by blast
      from addVertex_absent_index [OF sy no] pj g1
      have j: "j = length (m_vertex_node_list g)" and g2: "?g2 = append_vertex g b" by simp_all
      have "dests ?g2 i = dests g i" unfolding g2 using li by (rule append_vertex_dests)
      moreover have "j \<notin> dests g i"
        using edges_live_dests [OF live li, of j] j by auto
      ultimately have d: "j \<notin> dests ?g2 i" by simp
      from addVertex_missing(2) [OF sy no] have "findVertex VerEq g (get1 (a, b, w)) = end_iter"
        by (simp add: get1_def)
      from findEdge_end_right [OF this] have "EdgeIter_eq (findEdge VerEq g (a, b, w)) edge_end"
        by (simp add: EdgeIter_eq_def edge_end_def)
      with d show ?thesis by simp
    next
      case Tb: True
      from addVertex_present_index [OF sy Tb] pj g1
      have fb: "findVertex VerEq g b = VertexIter (Some j)" and g2: "?g2 = g" by simp_all
      from fa fb have "\<not> EdgeIter_eq (findEdge VerEq g (a, b, w)) edge_end \<longleftrightarrow> j \<in> dests g i"
        unfolding findEdge_not_end by (simp add: get0_def get1_def)
      with g2 show ?thesis by simp
    qed
  qed
  from both show "j \<in> dests ?g2 i \<longleftrightarrow> \<not> EdgeIter_eq (findEdge VerEq g (a, b, w)) edge_end"
    by simp
  from both show "j \<in> dests ?g2 i \<Longrightarrow> ?g2 = g" by simp
qed

subsection \<open>Vertex insertion\<close>

text \<open>
  Claim C5. Vertex insertion is idempotent under the equality predicate: when a record
  whose value is equal to \<open>v\<close> exists, \<open>addVertex\<close> returns the cursor of that record (the
  one \<open>findVertex\<close> returns) and \<open>false\<close> and leaves the graph, and so the count, as it
  was; when there is none, it appends a new record at the tail, adds one to the count and
  returns the cursor of the new record and \<open>true\<close>. The predicate is taken to be symmetric,
  as an equality is: the scan applies it to (value, record), the test after it to
  (record, value).
\<close>

theorem addVertex_idempotent:
  assumes "symp VerEq"
  shows "((\<exists>n\<in>set (m_vertex_node_list g). VerEq (vertex n) v) \<longrightarrow>
            addVertex VerEq g v = (g, findVertex VerEq g v, False) \<and>
            (\<exists>i. findVertex VerEq g v = VertexIter (Some i) \<and> live_vertex g i \<and>
                 VerEq (vertex (m_vertex_node_list g ! i)) v)) \<and>
         ((\<forall>n\<in>set (m_vertex_node_list g). \<not> VerEq (vertex n) v) \<longrightarrow>
            addVertex VerEq g v =
              (g\<lparr>m_vertex_node_list := m_vertex_node_list g @ [new_VertexNode v],
                 m_size := m_size g + 1\<rparr>,
               VertexIter (Some (length (m_vertex_node_list g))), True))"
proof (intro conjI impI)
  assume "\<exists>n\<in>set (m_vertex_node_list g). VerEq (vertex n) v"
  then obtain n where n: "n \<in> set (m_vertex_node_list g)" "VerEq (vertex n) v" by blast
  from addVertex_found [OF assms n]
  show "addVertex VerEq g v = (g, findVertex VerEq g v, False)" by simp
  from n(1) have "m_vertex_node_list g \<noteq> []" by auto
  then have "findVertexLoop VerEq v (m_vertex_node_list g) 0 < length (m_vertex_node_list g)"
    by (rule findVertexLoop_bound)
  with addVertex_found [OF assms n]
  show "\<exists>i. findVertex VerEq g v = VertexIter (Some i) \<and> live_vertex g i \<and>
            VerEq (vertex (m_vertex_node_list g ! i)) v"
    by (simp add: live_vertex_def)
next
  assume "\<forall>n\<in>set (m_vertex_node_list g). \<not> VerEq (vertex n) v"
  from addVertex_missing(1) [OF assms this]
  show "addVertex VerEq g v =
          (g\<lparr>m_vertex_node_list := m_vertex_node_list g @ [new_VertexNode v],
             m_size := m_size g + 1\<rparr>,
           VertexIter (Some (length (m_vertex_node_list g))), True)" .
qed

theorem addVertex_idempotent_witness:
  "symp ((=) :: nat \<Rightarrow> nat \<Rightarrow> bool) \<and>
   addVertex (=) \<lparr>m_vertex_node_list = [new_VertexNode (7::nat)], m_size = 1\<rparr> 7 =
     (\<lparr>m_vertex_node_list = [new_VertexNode 7], m_size = 1\<rparr>, VertexIter (Some 0), False) \<and>
   addVertex (=) \<lparr>m_vertex_node_list = [new_VertexNode (7::nat)], m_size = 1\<rparr> 8 =
     (\<lparr>m_vertex_node_list = [new_VertexNode 7, new_VertexNode 8], m_size = 2\<rparr>,
      VertexIter (Some 1), True)"
proof -
  have s: "symp ((=) :: nat \<Rightarrow> nat \<Rightarrow> bool)" by (simp add: symp_def)
  from addVertex_idempotent [OF s, of "\<lparr>m_vertex_node_list = [new_VertexNode (7::nat)], m_size = 1\<rparr>" 7]
       addVertex_idempotent [OF s, of "\<lparr>m_vertex_node_list = [new_VertexNode (7::nat)], m_size = 1\<rparr>" 8]
  show ?thesis using s
    by (simp add: new_VertexNode_def findVertex_def findVertexHelper_def)
qed

subsection \<open>Cursors\<close>

text \<open>
  Claim C7. For the vertex cursor and the edge cursor: dereferencing a cursor at the end
  sentinel throws the invalid-iterator error, advancing it throws the end-of-iteration
  error, and dereferencing or advancing a cursor that is not at the sentinel throws neither;
  on a cursor at a record of the graph both operations return.
\<close>

theorem cursor_errors:
  "VertexIter_deref g end_iter = Throws Invalid_iterator \<and>
   VertexIter_inc g end_iter = Throws End_of_iteration_reached \<and>
   (m_edge_node it = None \<longrightarrow>
      EdgeIter_deref Weighted g it = Throws Invalid_iterator \<and>
      EdgeIter_inc g it = Throws End_of_iteration_reached) \<and>
   (m_vertex_node vit \<noteq> None \<longrightarrow>
      (\<forall>e. VertexIter_deref g vit \<noteq> Throws e) \<and> (\<forall>e. VertexIter_inc g vit \<noteq> Throws e)) \<and>
   (m_edge_node it \<noteq> None \<longrightarrow>
      (\<forall>e. EdgeIter_deref Weighted g it \<noteq> Throws e) \<and> (\<forall>e. EdgeIter_inc g it \<noteq> Throws e)) \<and>
   (live_vertex g i \<longrightarrow>
      VertexIter_deref g (VertexIter (Some i)) = Returns (vertex (m_vertex_node_list g ! i)) \<and>
      (\<exists>it'. VertexIter_inc g (VertexIter (Some i)) = Returns it')) \<and>
   (live_vertex g v \<and> live_edge g p \<and>
    live_vertex g (vertex_node (edge_list (m_vertex_node_list g ! fst p) ! snd p)) \<longrightarrow>
      (\<exists>t. EdgeIter_deref Weighted g \<lparr>m_vertex_node_e = Some v, m_edge_node = Some p\<rparr> = Returns t) \<and>
      (\<exists>it'. EdgeIter_inc g \<lparr>m_vertex_node_e = Some v, m_edge_node = Some p\<rparr> = Returns it'))"
  by (auto simp: iter_defs split: option.splits)

theorem cursor_errors_witness:
  "EdgeIter_deref True (Graph_of_edges False True (=) [(1::int, 2, 5)]) edge_end = Throws Invalid_iterator \<and>
   EdgeIter_inc (Graph_of_edges False True (=) [(1::int, 2, 5)]) edge_end = Throws End_of_iteration_reached \<and>
   VertexIter_deref (Graph_of_edges False True (=) [(1::int, 2, 5)]) (VertexIter (Some 1)) = Returns 2 \<and>
   VertexIter_inc (Graph_of_edges False True (=) [(1::int, 2, 5)]) (VertexIter (Some 1)) = Returns end_iter \<and>
   EdgeIter_deref True (Graph_of_edges False True (=) [(1::int, 2, 5)])
     \<lparr>m_vertex_node_e = Some 1, m_edge_node = Some (1, 0)\<rparr> = Returns (2, 1, 5) \<and>
   EdgeIter_inc (Graph_of_edges False True (=) [(1::int, 2, 5)])
     \<lparr>m_vertex_node_e = Some 1, m_edge_node = Some (1, 0)\<rparr> =
     Returns \<lparr>m_vertex_node_e = Some 1, m_edge_node = None\<rparr>"
  using cursor_errors [of "Graph_of_edges False True (=) [(1::int, 2, 5)]" edge_end True
          "VertexIter (Some 1)" 1 1 "(1, 0)"]
  by (simp add: Graph_of_edges_example iter_defs)


text \<open>
  Claim C10. \<open>getEdges\<close> has no sentinel check: on the end cursor it neither returns nor
  throws (the model's \<open>Undefined\<close>), where dereference and advance throw; on a cursor at a
  record of the graph it returns the edge cursor of that vertex placed at the first record
  of its edge list (the end of the edge list when the vertex has no edge).
\<close>

theorem getEdges_unguarded:
  "getEdges g end_iter = Undefined \<and>
   VertexIter_deref g end_iter = Throws Invalid_iterator \<and>
   VertexIter_inc g end_iter = Throws End_of_iteration_reached \<and>
   (live_vertex g i \<longrightarrow>
      getEdges g (VertexIter (Some i)) =
        Returns \<lparr>m_vertex_node_e = Some i,
                 m_edge_node = (if edge_list (m_vertex_node_list g ! i) = [] then None else Some (i, 0))\<rparr>) \<and>
   (live_vertex g i \<and> edge_list (m_vertex_node_list g ! i) \<noteq> [] \<and>
    live_vertex g (vertex_node (hd (edge_list (m_vertex_node_list g ! i)))) \<longrightarrow>
      (\<exists>it. getEdges g (VertexIter (Some i)) = Returns it \<and>
            EdgeIter_deref Weighted g it =
              Returns (getTuple Weighted g i (hd (edge_list (m_vertex_node_list g ! i))))))"
  by (auto simp: iter_defs hd_conv_nth)

theorem getEdges_unguarded_witness:
  "getEdges (Graph_of_edges False True (=) [(1::int, 2, 5)]) (VertexIter (Some 0)) =
     Returns \<lparr>m_vertex_node_e = Some 0, m_edge_node = Some (0, 0)\<rparr> \<and>
   EdgeIter_deref True (Graph_of_edges False True (=) [(1::int, 2, 5)])
     \<lparr>m_vertex_node_e = Some 0, m_edge_node = Some (0, 0)\<rparr> = Returns (1, 2, 5)"
  using getEdges_unguarded [of "Graph_of_edges False True (=) [(1::int, 2, 5)]" 0 True]
  by (simp add: Graph_of_edges_example iter_defs)

text \<open>
  Claim C9. The stored vertex count equals the number of vertex records linked from the list
  head: this holds of the empty graph and is preserved by vertex insertion (single and
  batch), edge insertion (single and batch), construction from an edge sequence, copy
  assignment and copy construction, and teardown. The predicate is taken to be symmetric, as
  an equality is.
\<close>

theorem vertex_count_invariant:
  assumes "symp VerEq"
  shows "count_ok (Graph_empty :: 'v Graph) \<and>
         (count_ok g \<longrightarrow> count_ok (fst (addVertex VerEq g v))) \<and>
         (count_ok g \<longrightarrow> count_ok (addVertex_list VerEq g vs)) \<and>
         (count_ok g \<longrightarrow> count_ok (fst (addEdge Directed Weighted VerEq g e))) \<and>
         (count_ok g \<longrightarrow> count_ok (addEdge_list Directed Weighted VerEq g es)) \<and>
         count_ok (Graph_of_edges Directed Weighted VerEq es) \<and>
         count_ok (operator_assign Directed Weighted VerEq g h) \<and>
         count_ok (Graph_copy Directed Weighted VerEq h) \<and>
         count_ok (destroyGraph g)"
  using assms
  by (simp add: Graph_empty_count_ok addVertex_count_ok addVertex_list_count_ok
        addEdge_count_ok addEdge_list_count_ok destroyGraph_count_ok
        copy_vertices_count_ok Graph_of_edges_def operator_assign_def Graph_copy_def)

theorem vertex_count_invariant_witness:
  "symp ((=) :: int \<Rightarrow> int \<Rightarrow> bool) \<and>
   count_ok (Graph_empty :: int Graph) \<and>
   count_ok (fst (addVertex (=) (Graph_empty :: int Graph) 3)) \<and>
   count_ok (addVertex_list (=) (Graph_empty :: int Graph) [3, 4, 3]) \<and>
   count_ok (fst (addEdge False True (=) (Graph_empty :: int Graph) (1, 2, 5))) \<and>
   count_ok (addEdge_list False True (=) (Graph_empty :: int Graph) [(1, 2, 5), (2, 3, 3)]) \<and>
   count_ok (Graph_of_edges False True (=) [(1::int, 2, 5), (2, 3, 3)]) \<and>
   count_ok (operator_assign False True (=) (Graph_empty :: int Graph)
     (Graph_of_edges False True (=) [(1::int, 2, 5)])) \<and>
   count_ok (Graph_copy False True (=) (Graph_of_edges False True (=) [(1::int, 2, 5)])) \<and>
   count_ok (destroyGraph (Graph_empty :: int Graph))"
proof -
  have s: "symp ((=) :: int \<Rightarrow> int \<Rightarrow> bool)" by (simp add: symp_def)
  have e: "count_ok (Graph_empty :: int Graph)" by (simp add: count_ok_def Graph_empty_def)
  from vertex_count_invariant [OF s, of Graph_empty 3 "[3, 4, 3]" False True "(1, 2, 5)"
         "[(1, 2, 5), (2, 3, 3)]" "Graph_of_edges False True (=) [(1::int, 2, 5)]"] s e
  show ?thesis by blast
qed

subsection \<open>Edge insertion\<close>

text \<open>
  Claim C4. Edge insertion is idempotent per ordered endpoint pair. For \<open>addEdgeHelper\<close>:
  when the edge list of \<open>f\<close> holds a record whose destination is \<open>t\<close>, a further insertion
  with any weight returns the cursor of such a record and \<open>false\<close> and leaves the graph as it
  was. For \<open>addEdge\<close> on a reachable graph: when \<open>findEdge\<close> finds the edge from \<open>u\<close> to
  \<open>v\<close>, a further insertion of \<open>(u, v)\<close> with any weight returns the cursor that \<open>findEdge\<close>
  returns and \<open>false\<close>, and the graph, with its edge records and their weights, is unchanged.
\<close>

theorem addEdge_idempotent:
  "(t \<in> dests g f \<longrightarrow>
      (\<exists>k. addEdgeHelper Weighted g f t w' =
              (g, \<lparr>m_vertex_node_e = Some f, m_edge_node = Some (f, k)\<rparr>, False) \<and>
           k < length (edge_list (m_vertex_node_list g ! f)) \<and>
           vertex_node (edge_list (m_vertex_node_list g ! f) ! k) = t)) \<and>
   (equivp VerEq \<and> reachable Directed Weighted VerEq g \<and>
    \<not> EdgeIter_eq (findEdge VerEq g (u, v, w)) edge_end \<longrightarrow>
      addEdge Directed Weighted VerEq g (u, v, w') = (g, findEdge VerEq g (u, v, w), False))"
proof (intro conjI impI)
  assume d: "t \<in> dests g f"
  then obtain e where e: "e \<in> set (edge_list (m_vertex_node_list g ! f))" "vertex_node e = t"
    by (auto simp: dests_def)
  from e(1) have "edge_list (m_vertex_node_list g ! f) \<noteq> []" by auto
  then have "findEdgeLoop t (edge_list (m_vertex_node_list g ! f)) 0 <
      length (edge_list (m_vertex_node_list g ! f))" by (rule findEdgeLoop_bound)
  with addEdgeHelper_present [OF d, of Weighted w'] findEdgeLoop_found [OF e]
  show "\<exists>k. addEdgeHelper Weighted g f t w' =
              (g, \<lparr>m_vertex_node_e = Some f, m_edge_node = Some (f, k)\<rparr>, False) \<and>
           k < length (edge_list (m_vertex_node_list g ! f)) \<and>
           vertex_node (edge_list (m_vertex_node_list g ! f) ! k) = t"
    by (intro exI [of _ "findEdgeLoop t (edge_list (m_vertex_node_list g ! f)) 0"]) simp
next
  assume a: "equivp VerEq \<and> reachable Directed Weighted VerEq g \<and>
    \<not> EdgeIter_eq (findEdge VerEq g (u, v, w)) edge_end"
  then have eq: "equivp VerEq" and re: "reachable Directed Weighted VerEq g"
    and ne: "\<not> EdgeIter_eq (findEdge VerEq g (u, v, w)) edge_end" by simp_all
  from ne [unfolded findEdge_not_end] obtain i j where
    i: "findVertex VerEq g u = VertexIter (Some i)"
    and j: "findVertex VerEq g v = VertexIter (Some j)" and d: "j \<in> dests g i"
    by (auto simp: get0_def get1_def)
  have fe: "findEdge VerEq g (u, v, w) =
      \<lparr>m_vertex_node_e = Some i,
       m_edge_node = Some (i, findEdgeLoop j (edge_list (m_vertex_node_list g ! i)) 0)\<rparr>"
    using i j d by (intro findEdge_present) (simp_all add: get0_def get1_def)
  have av: "addVertex VerEq g (get0 (u, v, w')) = (g, VertexIter (Some i), False)"
    "addVertex VerEq g (get1 (u, v, w')) = (g, VertexIter (Some j), False)"
    using i j by (simp_all add: addVertex_present get0_def get1_def)
  note unf = addEdge_unfold [OF av, of Directed Weighted]
  show "addEdge Directed Weighted VerEq g (u, v, w') = (g, findEdge VerEq g (u, v, w), False)"
  proof (cases Directed)
    case True
    with unf fe addEdgeHelper_present [OF d, of Weighted] show ?thesis
      by simp
  next
    case False
    from reachable_inv [OF equivp_symp [OF eq] equivp_reflp' [OF eq] re] False
    have "mirrored g" by (simp add: graph_inv_def)
    moreover from i have "i < length (m_vertex_node_list g)" by (rule findVertex_live)
    ultimately have "i \<in> dests g j" using d by (rule mirrored_dests)
    from addEdgeHelper_present [OF this, of Weighted] addEdgeHelper_present [OF d, of Weighted]
      unf fe False
    show ?thesis by simp
  qed
qed

theorem addEdge_idempotent_witness:
  "addEdgeHelper True (Graph_of_edges False True (=) [(1::int, 2, 5)]) 0 1 9 =
     (Graph_of_edges False True (=) [(1::int, 2, 5)],
      \<lparr>m_vertex_node_e = Some 0, m_edge_node = Some (0, 0)\<rparr>, False) \<and>
   addEdge False True (=) (Graph_of_edges False True (=) [(1::int, 2, 5)]) (1, 2, 9) =
     (Graph_of_edges False True (=) [(1::int, 2, 5)],
      \<lparr>m_vertex_node_e = Some 0, m_edge_node = Some (0, 0)\<rparr>, False)"
proof -
  let ?g = "Graph_of_edges False True (=) [(1::int, 2, 5)]"
  have d: "1 \<in> dests ?g 0"
    by (simp add: Graph_of_edges_example dests_def)
  have e: "equivp ((=) :: int \<Rightarrow> int \<Rightarrow> bool)" by (rule identity_equivp)
  have r: "reachable False True (=) ?g" by (rule Graph_of_edges_reachable)
  have fe: "findEdge (=) ?g (1, 2, 5) = \<lparr>m_vertex_node_e = Some 0, m_edge_node = Some (0, 0)\<rparr>"
    by (simp add: Graph_of_edges_example findEdge_def findVertex_def findVertexHelper_def
          findEdgeHelper_def get0_def get1_def)
  then have ne: "\<not> EdgeIter_eq (findEdge (=) ?g (1, 2, 5)) edge_end"
    by (simp add: EdgeIter_eq_def edge_end_def)
  from addEdge_idempotent [where t = 1 and g = ?g and f = 0 and Weighted = True and w' = 9
         and VerEq = "(=)" and Directed = False and u = 1 and v = 2 and w = 5] d e r ne fe
  show ?thesis by (simp add: Graph_of_edges_example)
qed

lemma equivp_VerEq_trans:
  "equivp VerEq \<Longrightarrow> VerEq x a \<Longrightarrow> VerEq x b \<Longrightarrow> VerEq a b"
proof -
  assume e: "equivp VerEq" and xa: "VerEq x a" and xb: "VerEq x b"
  from e have "symp VerEq" "transp VerEq" by (auto elim: equivpE)
  from sympD [OF this(1) xa] xb this(2) show "VerEq a b" by (auto dest: transpD)
qed

text \<open>
  Claim C3, as the code has it. In an undirected graph reachable from the empty graph, for
  values \<open>a\<close> and \<open>b\<close> that the predicate does not equate, after \<open>addEdge((a, b, w))\<close>
  both \<open>findEdge((a, b))\<close> and \<open>findEdge((b, a))\<close> return cursors that are not the end cursor;
  the cursor that \<open>addEdge\<close> returns is the one of the edge from \<open>a\<close> to \<open>b\<close>, and its flag is
  true exactly when that edge was not found before; \<open>addEdge\<close> is the insertion of the edge
  from \<open>a\<close> to \<open>b\<close> into the state left by the insertion of the mirror edge; the two edges
  dereference to the same endpoints and the same weight, which is \<open>w\<close> when the graph is
  weighted and the edge was inserted; and when the edge was there already the graph is
  unchanged, so both keep the weight they had.
\<close>

theorem undirected_mirroring:
  assumes eq: "equivp VerEq" and reach: "reachable False Weighted VerEq g"
    and ab: "\<not> VerEq a b"
  shows "let r = addEdge False Weighted VerEq g (a, b, w); g' = fst r in
         \<not> EdgeIter_eq (findEdge VerEq g' (a, b, w)) edge_end \<and>
         \<not> EdgeIter_eq (findEdge VerEq g' (b, a, w)) edge_end \<and>
         fst (snd r) = findEdge VerEq g' (a, b, w) \<and>
         snd (snd r) = EdgeIter_eq (findEdge VerEq g (a, b, w)) edge_end \<and>
         (\<exists>i j. findVertex VerEq g' a = VertexIter (Some i) \<and>
                findVertex VerEq g' b = VertexIter (Some j) \<and>
                r = addEdgeHelper Weighted
                      (fst (addEdgeHelper Weighted (addVertex_list VerEq g [a, b]) j i w)) i j w) \<and>
         (\<exists>a' b' x. EdgeIter_deref Weighted g' (findEdge VerEq g' (a, b, w)) = Returns (a', b', x) \<and>
                    EdgeIter_deref Weighted g' (findEdge VerEq g' (b, a, w)) = Returns (b', a', x) \<and>
                    VerEq a' a \<and> VerEq b' b \<and>
                    (Weighted \<and> snd (snd r) \<longrightarrow> x = w) \<and>
                    (\<not> snd (snd r) \<longrightarrow> g' = g))"
proof -
  note sy = equivp_symp [OF eq] and re = equivp_reflp' [OF eq]
  have inv: "graph_inv False VerEq g" by (rule reachable_inv [OF sy re reach])
  let ?g1 = "fst (addVertex VerEq g a)"
  let ?g2 = "fst (addVertex VerEq ?g1 b)"
  from addVertex_ptr [OF sy re, of g a] obtain i where
    pi: "fst (snd (addVertex VerEq g a)) = VertexIter (Some i)"
    and l1: "i < length (m_vertex_node_list ?g1)"
    and ei: "VerEq (vertex (m_vertex_node_list ?g1 ! i)) a"
    and bi: "\<forall>k<i. \<not> VerEq (vertex (m_vertex_node_list ?g1 ! k)) a"
    by (elim exE conjE)
  from addVertex_ptr [OF sy re, of ?g1 b] obtain j where
    pj: "fst (snd (addVertex VerEq ?g1 b)) = VertexIter (Some j)"
    and lj: "j < length (m_vertex_node_list ?g2)"
    and ej: "VerEq (vertex (m_vertex_node_list ?g2 ! j)) b"
    and bj: "\<forall>k<j. \<not> VerEq (vertex (m_vertex_node_list ?g2 ! k)) b"
    by (elim exE conjE)
  from l1 addVertex_length [OF sy, of ?g1 b] have li: "i < length (m_vertex_node_list ?g2)"
    by simp
  have same: "m_vertex_node_list ?g2 ! k = m_vertex_node_list ?g1 ! k"
    if "k < length (m_vertex_node_list ?g1)" for k
    using that by (rule addVertex_nth [OF sy])
  from ei same [OF l1] have ei2: "VerEq (vertex (m_vertex_node_list ?g2 ! i)) a" by simp
  have bi2: "\<forall>k<i. \<not> VerEq (vertex (m_vertex_node_list ?g2 ! k)) a"
    using bi l1 same by simp
  have ij: "i \<noteq> j"
  proof
    assume "i = j"
    with ei2 ej have "VerEq a b" by (auto intro: equivp_VerEq_trans [OF eq])
    with ab show False by simp
  qed
  have inv2: "graph_inv False VerEq ?g2"
    by (intro addVertex_inv sy inv)
  let ?g3 = "fst (addEdgeHelper Weighted ?g2 j i w)"
  let ?r = "addEdgeHelper Weighted ?g3 i j w"
  let ?g4 = "fst ?r"
  have a1: "addVertex VerEq g (get0 (a, b, w)) = (?g1, VertexIter (Some i), snd (snd (addVertex VerEq g a)))"
    using pi by (simp add: get0_def prod_eq_iff)
  have a2: "addVertex VerEq ?g1 (get1 (a, b, w)) = (?g2, VertexIter (Some j), snd (snd (addVertex VerEq ?g1 b)))"
    using pj by (simp add: get1_def prod_eq_iff)
  have unf: "addEdge False Weighted VerEq g (a, b, w) = ?r"
    using addEdge_unfold [OF a1 a2, of False Weighted] by (simp add: get_last_def)
  have len3: "length (m_vertex_node_list ?g3) = length (m_vertex_node_list ?g2)" by simp
  have fa: "findVertex VerEq ?g4 a = VertexIter (Some i)"
    using li ei2 bi2 by (intro findVertex_first [OF sy]) simp_all
  have fb: "findVertex VerEq ?g4 b = VertexIter (Some j)"
    using lj ej bj by (intro findVertex_first [OF sy]) simp_all
  have d3: "dests ?g3 k = (if k = j then insert i (dests ?g2 j) else dests ?g2 k)" for k
    using lj by (rule addEdgeHelper_dests)
  have d4: "dests ?g4 k = (if k = i then insert j (dests ?g3 i) else dests ?g3 k)" for k
    using li by (intro addEdgeHelper_dests) simp
  have dij: "j \<in> dests ?g4 i" by (simp add: d4)
  have dji: "i \<in> dests ?g4 j" using ij by (simp add: d4 d3)
  have fab: "findVertex VerEq ?g4 (get0 (a, b, w)) = VertexIter (Some i)"
    "findVertex VerEq ?g4 (get1 (a, b, w)) = VertexIter (Some j)"
    using fa fb by (simp_all add: get0_def get1_def)
  have fba: "findVertex VerEq ?g4 (get0 (b, a, w)) = VertexIter (Some j)"
    "findVertex VerEq ?g4 (get1 (b, a, w)) = VertexIter (Some i)"
    using fa fb by (simp_all add: get0_def get1_def)
  have c1: "\<not> EdgeIter_eq (findEdge VerEq ?g4 (a, b, w)) edge_end"
    unfolding findEdge_not_end using fab dij by blast
  have c2: "\<not> EdgeIter_eq (findEdge VerEq ?g4 (b, a, w)) edge_end"
    unfolding findEdge_not_end using fba dji by blast
  have c3: "fst (snd ?r) = findEdge VerEq ?g4 (a, b, w)"
    using addEdgeHelper_cursor [of i ?g3 Weighted j w] li findEdge_present [OF fab dij]
    by simp
  have flag: "snd (snd ?r) = (j \<notin> dests ?g2 i)"
    using ij by (simp add: addEdgeHelper_flag d3)
  from inv have live: "edges_live g" by (simp add: graph_inv_def)
  note ends = endpoints_edge(1) [OF sy live pi pj, of w] endpoints_edge(2) [OF sy live pi pj]
  have c4: "snd (snd ?r) = EdgeIter_eq (findEdge VerEq g (a, b, w)) edge_end"
    using flag ends(1) by simp
  have c5: "?r = addEdgeHelper Weighted
                   (fst (addEdgeHelper Weighted (addVertex_list VerEq g [a, b]) j i w)) i j w"
    by simp
  have inv4: "graph_inv False VerEq ?g4"
    using addEdge_inv [OF sy re inv, of Weighted "(a, b, w)"] unf by simp
  then have mir: "mirrored ?g4" and dis: "edges_distinct ?g4" by (simp_all add: graph_inv_def)
  let ?eij = "edge_list (m_vertex_node_list ?g4 ! i) !
                findEdgeLoop j (edge_list (m_vertex_node_list ?g4 ! i)) 0"
  let ?eji = "edge_list (m_vertex_node_list ?g4 ! j) !
                findEdgeLoop i (edge_list (m_vertex_node_list ?g4 ! j)) 0"
  from dij have mij: "?eij \<in> set (edge_list (m_vertex_node_list ?g4 ! i))" "vertex_node ?eij = j"
    unfolding dests_def by (rule findEdgeLoop_mem)+
  from dji have mji: "?eji \<in> set (edge_list (m_vertex_node_list ?g4 ! j))" "vertex_node ?eji = i"
    unfolding dests_def by (rule findEdgeLoop_mem)+
  have li4: "i < length (m_vertex_node_list ?g4)" and lj4: "j < length (m_vertex_node_list ?g4)"
    using li lj by simp_all
  have wt: "weight ?eji = weight ?eij"
    by (rule mirrored_weight [OF mir dis li4 lj4 mij mji])
  let ?x = "if Weighted then weight ?eij else 0"
  have dab: "EdgeIter_deref Weighted ?g4 (findEdge VerEq ?g4 (a, b, w)) =
      Returns (vertex (m_vertex_node_list ?g4 ! i), vertex (m_vertex_node_list ?g4 ! j), ?x)"
    by (rule deref_findEdge [OF fab dij])
  have dba: "EdgeIter_deref Weighted ?g4 (findEdge VerEq ?g4 (b, a, w)) =
      Returns (vertex (m_vertex_node_list ?g4 ! j), vertex (m_vertex_node_list ?g4 ! i), ?x)"
    using deref_findEdge [OF fba dji, of Weighted] unfolding wt .
  have va: "VerEq (vertex (m_vertex_node_list ?g4 ! i)) a" using ei2 by simp
  have vb: "VerEq (vertex (m_vertex_node_list ?g4 ! j)) b" using ej by simp
  have new: "?x = w" if "Weighted" "snd (snd ?r)"
  proof -
    from that(2) flag ij have no: "j \<notin> dests ?g3 i" by (simp add: d3)
    let ?es = "edge_list (m_vertex_node_list ?g3 ! i)"
    let ?e = "setEdgeWeight Weighted (new_EdgeNode j) w"
    from addEdgeHelper_absent [OF no, of Weighted w] li
    have es4: "edge_list (m_vertex_node_list ?g4 ! i) = ?es @ [?e]"
      by (simp add: append_edge_edges)
    have "findEdgeLoop j (?es @ [?e]) 0 = length ?es"
      using no by (intro findEdgeLoop_append_new) (simp_all add: dests_def)
    with es4 have "?eij = ?e" by simp
    with that(1) show ?thesis by simp
  qed
  have old: "?g4 = g" if "\<not> snd (snd ?r)"
  proof -
    from that flag have d: "j \<in> dests ?g2 i" by simp
    from ends(2) [OF d] have g2: "?g2 = g" .
    from inv2 have "mirrored ?g2" by (simp add: graph_inv_def)
    from mirrored_dests [OF this li d] have d': "i \<in> dests ?g2 j" .
    from d' have g3: "?g3 = ?g2" by (simp add: addEdgeHelper_state)
    from d g3 have "?g4 = ?g2" by (simp add: addEdgeHelper_state)
    with g2 show ?thesis by simp
  qed
  have c6: "\<exists>a' b' x. EdgeIter_deref Weighted ?g4 (findEdge VerEq ?g4 (a, b, w)) = Returns (a', b', x) \<and>
                    EdgeIter_deref Weighted ?g4 (findEdge VerEq ?g4 (b, a, w)) = Returns (b', a', x) \<and>
                    VerEq a' a \<and> VerEq b' b \<and>
                    (Weighted \<and> snd (snd ?r) \<longrightarrow> x = w) \<and>
                    (\<not> snd (snd ?r) \<longrightarrow> ?g4 = g)"
  proof (intro exI conjI)
    show "EdgeIter_deref Weighted ?g4 (findEdge VerEq ?g4 (a, b, w)) =
      Returns (vertex (m_vertex_node_list ?g4 ! i), vertex (m_vertex_node_list ?g4 ! j), ?x)"
      by (rule dab)
    show "EdgeIter_deref Weighted ?g4 (findEdge VerEq ?g4 (b, a, w)) =
      Returns (vertex (m_vertex_node_list ?g4 ! j), vertex (m_vertex_node_list ?g4 ! i), ?x)"
      by (rule dba)
    show "VerEq (vertex (m_vertex_node_list ?g4 ! i)) a" by (rule va)
    show "VerEq (vertex (m_vertex_node_list ?g4 ! j)) b" by (rule vb)
    show "Weighted \<and> snd (snd ?r) \<longrightarrow> ?x = w" using new by blast
    show "\<not> snd (snd ?r) \<longrightarrow> ?g4 = g" using old by blast
  qed
  from fa fb c5 have c7: "\<exists>i j. findVertex VerEq ?g4 a = VertexIter (Some i) \<and>
                findVertex VerEq ?g4 b = VertexIter (Some j) \<and>
                ?r = addEdgeHelper Weighted
                      (fst (addEdgeHelper Weighted (addVertex_list VerEq g [a, b]) j i w)) i j w"
    by blast
  from c1 c2 c3 c4 c6 c7 show ?thesis
    unfolding Let_def unf by (intro conjI)
qed

theorem undirected_mirroring_witness:
  "equivp ((=) :: int \<Rightarrow> int \<Rightarrow> bool) \<and>
   reachable False True (=) (Graph_of_edges False True (=) [(1::int, 2, 5)]) \<and>
   (2::int) \<noteq> 3 \<and>
   (let r = addEdge False True (=) (Graph_of_edges False True (=) [(1::int, 2, 5)]) (2, 3, 4);
        g' = fst r in
    \<not> EdgeIter_eq (findEdge (=) g' (2, 3, 4)) edge_end \<and>
    \<not> EdgeIter_eq (findEdge (=) g' (3, 2, 4)) edge_end \<and>
    fst (snd r) = findEdge (=) g' (2, 3, 4) \<and>
    snd (snd r) = EdgeIter_eq (findEdge (=) (Graph_of_edges False True (=) [(1::int, 2, 5)]) (2, 3, 4)) edge_end \<and>
    (\<exists>i j. findVertex (=) g' 2 = VertexIter (Some i) \<and>
           findVertex (=) g' 3 = VertexIter (Some j) \<and>
           r = addEdgeHelper True
                 (fst (addEdgeHelper True
                    (addVertex_list (=) (Graph_of_edges False True (=) [(1::int, 2, 5)]) [2, 3]) j i 4))
                 i j 4) \<and>
    (\<exists>a' b' x. EdgeIter_deref True g' (findEdge (=) g' (2, 3, 4)) = Returns (a', b', x) \<and>
               EdgeIter_deref True g' (findEdge (=) g' (3, 2, 4)) = Returns (b', a', x) \<and>
               a' = 2 \<and> b' = 3 \<and>
               (True \<and> snd (snd r) \<longrightarrow> x = 4) \<and>
               (\<not> snd (snd r) \<longrightarrow> g' = Graph_of_edges False True (=) [(1::int, 2, 5)])))"
proof -
  have e: "equivp ((=) :: int \<Rightarrow> int \<Rightarrow> bool)" by (rule identity_equivp)
  have r: "reachable False True (=) (Graph_of_edges False True (=) [(1::int, 2, 5)])"
    by (rule Graph_of_edges_reachable)
  have n: "(2::int) \<noteq> 3" by simp
  show ?thesis
    using e r n undirected_mirroring [OF e r n, of 4]
    by (intro conjI) assumption+
qed

text \<open>
  The claim as stated has both edges dereference to the weight \<open>w\<close> of the call. On the graph
  built from the edge \<open>(1, 2, 5)\<close>, after \<open>addEdge((1, 2, 7))\<close> both edges dereference to the
  weight 5.
\<close>

theorem undirected_mirroring_counterexample:
  "EdgeIter_deref True
     (fst (addEdge False True (=) (Graph_of_edges False True (=) [(1::int, 2, 5)]) (1, 2, 7)))
     (findEdge (=)
        (fst (addEdge False True (=) (Graph_of_edges False True (=) [(1::int, 2, 5)]) (1, 2, 7)))
        (1, 2, 7)) = Returns (1, 2, 5) \<and>
   EdgeIter_deref True
     (fst (addEdge False True (=) (Graph_of_edges False True (=) [(1::int, 2, 5)]) (1, 2, 7)))
     (findEdge (=)
        (fst (addEdge False True (=) (Graph_of_edges False True (=) [(1::int, 2, 5)]) (1, 2, 7)))
        (2, 1, 7)) = Returns (2, 1, 5) \<and>
   (1::int) \<noteq> 2 \<and> (5 :: 32 word) \<noteq> 7"
proof -
  have a: "addEdge False True (=) (Graph_of_edges False True (=) [(1::int, 2, 5)]) (1, 2, 7) =
      (Graph_of_edges False True (=) [(1::int, 2, 5)],
       \<lparr>m_vertex_node_e = Some 0, m_edge_node = Some (0, 0)\<rparr>, False)"
    by (simp add: Graph_of_edges_example addEdge_def addEdgeCaller_def addVertex_def
          findVertexHelper_def addEdgeHelper_def findEdgeHelper_def get0_def get1_def get_last_def)
  show ?thesis
    by (simp add: a)
       (simp add: Graph_of_edges_example findEdge_def findVertex_def findVertexHelper_def
          findEdgeHelper_def get0_def get1_def iter_defs)
qed

text \<open>
  Claim C8. In an undirected graph in which \<open>u\<close> has no self-loop (\<open>findEdge\<close> returns the
  end cursor for \<open>(u, u)\<close>), \<open>addEdge\<close> of \<open>(u, u)\<close> returns \<open>inserted = false\<close>, although it
  appends exactly one edge record, with destination \<open>u\<close>, to the edge list of \<open>u\<close>: the graph
  it returns is the graph after inserting the vertex \<open>u\<close> with that one record appended, and
  the cursor it returns is at that record.
\<close>

theorem undirected_self_loop:
  assumes "equivp VerEq" "EdgeIter_eq (findEdge VerEq g (u, u, w0)) edge_end"
  shows "\<exists>i. fst (snd (addVertex VerEq g u)) = VertexIter (Some i) \<and>
             live_vertex (fst (addVertex VerEq g u)) i \<and>
             VerEq (vertex (m_vertex_node_list (fst (addVertex VerEq g u)) ! i)) u \<and>
             addEdge False Weighted VerEq g (u, u, w) =
               (append_edge (fst (addVertex VerEq g u)) i (setEdgeWeight Weighted (new_EdgeNode i) w),
                \<lparr>m_vertex_node_e = Some i,
                 m_edge_node = Some (i, length (edge_list
                   (m_vertex_node_list (fst (addVertex VerEq g u)) ! i)))\<rparr>,
                False)"
proof -
  let ?g1 = "fst (addVertex VerEq g u)"
  note sy = equivp_symp [OF assms(1)] and re = equivp_reflp' [OF assms(1)]
  from addVertex_ptr [OF sy re, of g u] obtain i where
    p: "fst (snd (addVertex VerEq g u)) = VertexIter (Some i)"
    and l: "i < length (m_vertex_node_list ?g1)"
    and e: "VerEq (vertex (m_vertex_node_list ?g1 ! i)) u"
    and b: "\<forall>j<i. \<not> VerEq (vertex (m_vertex_node_list ?g1 ! j)) u" by blast
  have f1: "findVertex VerEq ?g1 u = VertexIter (Some i)"
    by (rule findVertex_first [OF sy l e b])
  have a1: "addVertex VerEq g (get0 (u, u, w)) = (?g1, VertexIter (Some i), snd (snd (addVertex VerEq g u)))"
    using p by (simp add: get0_def prod_eq_iff)
  have a2: "addVertex VerEq ?g1 (get1 (u, u, w)) = (?g1, VertexIter (Some i), False)"
    using f1 by (simp add: addVertex_present get1_def)
  have no: "i \<notin> dests ?g1 i"
  proof (cases "\<exists>n\<in>set (m_vertex_node_list g). VerEq (vertex n) u")
    case True
    then have g1: "?g1 = g" by (simp add: addVertex_state [OF sy])
    show ?thesis
    proof
      assume "i \<in> dests ?g1 i"
      with f1 g1 have "\<not> EdgeIter_eq (findEdge VerEq g (u, u, w0)) edge_end"
        unfolding findEdge_not_end by (auto simp: get0_def get1_def)
      with assms(2) show False by simp
    qed
  next
    case False
    then have "\<forall>n\<in>set (m_vertex_node_list g). \<not> VerEq (vertex n) u" by blast
    from addVertex_missing(1) [OF sy this] p
    have "i = length (m_vertex_node_list g)" and "?g1 = append_vertex g u"
      by (simp_all add: append_vertex_def)
    then show ?thesis by (simp add: append_vertex_dests_last)
  qed
  let ?e = "setEdgeWeight Weighted (new_EdgeNode i) w"
  let ?g3 = "append_edge ?g1 i ?e"
  have h1: "addEdgeHelper Weighted ?g1 i i w =
      (?g3, \<lparr>m_vertex_node_e = Some i,
              m_edge_node = Some (i, length (edge_list (m_vertex_node_list ?g1 ! i)))\<rparr>, True)"
    by (rule addEdgeHelper_absent [OF no])
  have "i \<in> dests ?g3 i" using l by (simp add: append_edge_dests)
  from addEdgeHelper_present [OF this, of Weighted w]
  have h2: "addEdgeHelper Weighted ?g3 i i w =
      (?g3, \<lparr>m_vertex_node_e = Some i,
              m_edge_node = Some (i, findEdgeLoop i (edge_list (m_vertex_node_list ?g1 ! i) @ [?e]) 0)\<rparr>,
       False)"
    using l by (simp add: append_edge_edges)
  have "findEdgeLoop i (edge_list (m_vertex_node_list ?g1 ! i) @ [?e]) 0 =
        length (edge_list (m_vertex_node_list ?g1 ! i))"
    using no by (intro findEdgeLoop_append_new) (simp_all add: dests_def)
  with h2 h1 addEdge_unfold [OF a1 a2, of False Weighted]
  have "addEdge False Weighted VerEq g (u, u, w) =
      (?g3, \<lparr>m_vertex_node_e = Some i,
              m_edge_node = Some (i, length (edge_list (m_vertex_node_list ?g1 ! i)))\<rparr>, False)"
    by (simp add: get_last_def)
  with p l e show ?thesis by (simp add: live_vertex_def)
qed

theorem undirected_self_loop_witness:
  "equivp ((=) :: int \<Rightarrow> int \<Rightarrow> bool) \<and>
   EdgeIter_eq (findEdge (=) (Graph_of_edges False True (=) [(1::int, 2, 5)]) (2, 2, 0)) edge_end \<and>
   addEdge False True (=) (Graph_of_edges False True (=) [(1::int, 2, 5)]) (2, 2, 7) =
     (\<lparr>m_vertex_node_list =
         [\<lparr>vertex = 1, edge_list = [\<lparr>weight = 5, vertex_node = 1\<rparr>]\<rparr>,
          \<lparr>vertex = 2, edge_list = [\<lparr>weight = 5, vertex_node = 0\<rparr>, \<lparr>weight = 7, vertex_node = 1\<rparr>]\<rparr>],
        m_size = 2\<rparr>,
      \<lparr>m_vertex_node_e = Some 1, m_edge_node = Some (1, 1)\<rparr>, False)"
proof -
  let ?g = "Graph_of_edges False True (=) [(1::int, 2, 5)]"
  have e: "equivp ((=) :: int \<Rightarrow> int \<Rightarrow> bool)" by (rule identity_equivp)
  have n: "EdgeIter_eq (findEdge (=) ?g (2, 2, 0)) edge_end"
    by (simp add: Graph_of_edges_example findEdge_def findVertex_def findVertexHelper_def
          findEdgeHelper_def get0_def get1_def EdgeIter_eq_def edge_end_def)
  have a: "addVertex (=) ?g 2 = (?g, VertexIter (Some 1), False)"
    by (simp add: Graph_of_edges_example addVertex_def findVertexHelper_def)
  from undirected_self_loop [OF e n, of True 7] e n show ?thesis
    by (simp add: a) (simp add: Graph_of_edges_example append_edge_def set_edge_list_def
          setEdgeWeight_def new_EdgeNode_def)
qed

subsection \<open>Copy\<close>

text \<open>
  Claim C1, at a graph that holds one vertex and no edge: the graph has the vertex, and its
  copy, by copy construction and by copy assignment alike, is the empty graph, in which the
  vertex is not found. \<open>operator=\<close> re-inserts edges only, so a vertex with no edge, and no
  edge pointing to it, is not copied.
\<close>

theorem copy_drops_isolated_vertex:
  "fst (addVertex (=) Graph_empty (1::int)) = \<lparr>m_vertex_node_list = [new_VertexNode 1], m_size = 1\<rparr> \<and>
   findVertex (=) (fst (addVertex (=) Graph_empty (1::int))) 1 = VertexIter (Some 0) \<and>
   Graph_copy Directed Weighted (=) (fst (addVertex (=) Graph_empty (1::int))) = Graph_empty \<and>
   operator_assign Directed Weighted (=) this (fst (addVertex (=) Graph_empty (1::int))) = Graph_empty \<and>
   findVertex (=) (Graph_copy Directed Weighted (=) (fst (addVertex (=) Graph_empty (1::int)))) 1 = end_iter"
  by (simp add: graph_defs)

subsection \<open>The number of vertices\<close>

lemma eq_class_eq:
  assumes "equivp VerEq"
  shows "eq_class VerEq a = eq_class VerEq b \<longleftrightarrow> VerEq a b"
proof -
  have "eq_class VerEq a = eq_class VerEq b \<longleftrightarrow> VerEq a = VerEq b"
    by (auto simp: eq_class_def fun_eq_iff)
  with assms show ?thesis by (simp add: equivp_def)
qed

lemma vertex_classes_card:
  assumes "equivp VerEq" "vertices_distinct VerEq g"
  shows "card (eq_class VerEq ` vertex ` set (m_vertex_node_list g)) = length (m_vertex_node_list g)"
proof -
  let ?vs = "m_vertex_node_list g"
  let ?f = "\<lambda>i. eq_class VerEq (vertex (?vs ! i))"
  have "inj_on ?f {..<length ?vs}"
    using assms(2) by (auto simp: inj_on_def eq_class_eq [OF assms(1)] vertices_distinct_def)
  then have "card (?f ` {..<length ?vs}) = length ?vs" by (simp add: card_image)
  moreover have "?f ` {..<length ?vs} = eq_class VerEq ` vertex ` set ?vs"
    by (auto simp: set_conv_nth image_iff) 
  ultimately show ?thesis by simp
qed

lemma addVertex_classes:
  assumes "equivp VerEq"
  shows "eq_class VerEq ` vertex ` set (m_vertex_node_list (fst (addVertex VerEq g v))) =
         insert (eq_class VerEq v) (eq_class VerEq ` vertex ` set (m_vertex_node_list g))"
proof (cases "\<exists>n\<in>set (m_vertex_node_list g). VerEq (vertex n) v")
  case True
  then obtain n where n: "n \<in> set (m_vertex_node_list g)" "VerEq (vertex n) v" by blast
  from n(2) have "eq_class VerEq (vertex n) = eq_class VerEq v"
    by (simp add: eq_class_eq [OF assms])
  with n(1) have "eq_class VerEq v \<in> eq_class VerEq ` vertex ` set (m_vertex_node_list g)"
    by (metis imageI)
  with True show ?thesis
    by (auto simp: addVertex_state [OF equivp_symp [OF assms]])
next
  case False
  then show ?thesis
    by (simp add: addVertex_state [OF equivp_symp [OF assms]] new_VertexNode_def)
qed

lemma addVertex_list_classes:
  assumes "equivp VerEq"
  shows "eq_class VerEq ` vertex ` set (m_vertex_node_list (addVertex_list VerEq g xs)) =
         eq_class VerEq ` vertex ` set (m_vertex_node_list g) \<union> eq_class VerEq ` set xs"
proof (induction xs arbitrary: g)
  case Nil
  show ?case by simp
next
  case (Cons x xs)
  show ?case
    by (simp add: Cons.IH addVertex_classes [OF assms])
qed

lemma addVertex_list_inv:
  assumes "symp VerEq" "graph_inv Directed VerEq g"
  shows "graph_inv Directed VerEq (addVertex_list VerEq g xs)"
  using assms(2) by (induction xs arbitrary: g) (simp_all add: addVertex_inv [OF assms(1)])

lemma addVertex_list_fold:
  "addVertex_list VerEq g xs = fold (\<lambda>v g. fst (addVertex VerEq g v)) xs g"
  by (induction xs arbitrary: g) simp_all

text \<open>
  Claim C6. For every sequence of values inserted into the empty graph, by the batch
  insertion or one value at a time, the final vertex count is the number of distinct values
  of the sequence under the equality predicate: the number of classes of the predicate,
  an equivalence, that the values fall in.
\<close>

theorem vertex_count_distinct:
  assumes "equivp VerEq"
  shows "m_size (addVertex_list VerEq Graph_empty xs) = card (eq_class VerEq ` set xs) \<and>
         m_size (fold (\<lambda>v g. fst (addVertex VerEq g v)) xs Graph_empty) =
           card (eq_class VerEq ` set xs) \<and>
         card (eq_class VerEq ` set xs) = card (set xs // {(x, y). VerEq x y})"
proof -
  let ?g = "addVertex_list VerEq Graph_empty xs"
  have inv: "graph_inv True VerEq ?g"
    by (intro addVertex_list_inv equivp_symp [OF assms] Graph_empty_inv)
  then have "m_size ?g = length (m_vertex_node_list ?g)" and d: "vertices_distinct VerEq ?g"
    by (simp_all add: graph_inv_def count_ok_def)
  moreover note vertex_classes_card [OF assms d]
  moreover have "eq_class VerEq ` vertex ` set (m_vertex_node_list ?g) = eq_class VerEq ` set xs"
    by (simp add: addVertex_list_classes [OF assms] Graph_empty_def)
  ultimately have a: "m_size ?g = card (eq_class VerEq ` set xs)" by simp
  have "set xs // {(x, y). VerEq x y} = eq_class VerEq ` set xs"
    by (auto simp: quotient_def eq_class_def Image_def)
  with a show ?thesis by (simp add: addVertex_list_fold)
qed

theorem vertex_count_distinct_witness:
  "equivp (\<lambda>x y :: int. x mod 2 = y mod 2) \<and>
   m_size (addVertex_list (\<lambda>x y :: int. x mod 2 = y mod 2) Graph_empty [3, 4, 5, 3, 8]) = 2 \<and>
   card (eq_class (\<lambda>x y :: int. x mod 2 = y mod 2) ` set [3, 4, 5, 3, 8]) = 2"
proof -
  have e: "equivp (\<lambda>x y :: int. x mod 2 = y mod 2)"
    by (rule equivpI) (auto simp: reflp_def symp_def transp_def)
  have m: "m_size (addVertex_list (\<lambda>x y :: int. x mod 2 = y mod 2) Graph_empty [3, 4, 5, 3, 8]) = 2"
    by (simp add: Graph_empty_def addVertex_def findVertexHelper_def new_VertexNode_def)
  from vertex_count_distinct [OF e, of "[3, 4, 5, 3, 8]"] e m show ?thesis by simp
qed

subsection \<open>The number of edge records\<close>

lemma sym_closure_card:
  "card (set ps \<union> prod.swap ` set ps) =
     2 * card ((\<lambda>(a, b). {a, b}) ` {(a, b). (a, b) \<in> set ps \<and> a \<noteq> b}) +
     card ((\<lambda>(a, b). {a, b}) ` {(a, b). (a, b) \<in> set ps \<and> a = b})"
proof (induction ps)
  case Nil
  show ?case by simp
next
  case (Cons p ps)
  obtain a b where p: "p = (a, b)" by (cases p)
  let ?S = "set ps \<union> prod.swap ` set ps"
  let ?N = "\<lambda>ps. (\<lambda>(a, b). {a, b}) ` {(a, b). (a, b) \<in> set ps \<and> a \<noteq> b}"
  let ?L = "\<lambda>ps. (\<lambda>(a, b). {a, b}) ` {(a, b). (a, b) \<in> set ps \<and> a = b}"
  have finS: "finite ?S" by simp
  have finN: "finite (?N ps)"
    by (rule finite_imageI, rule finite_subset [of _ "set ps"]) auto
  have finL: "finite (?L ps)"
    by (rule finite_imageI, rule finite_subset [of _ "set ps"]) auto
  have S': "set (p # ps) \<union> prod.swap ` set (p # ps) = insert (a, b) (insert (b, a) ?S)"
    by (auto simp: p)
  have swapS: "(x, y) \<in> ?S \<longleftrightarrow> (y, x) \<in> ?S" for x y by force
  show ?case
  proof (cases "a = b")
    case True
    have N': "?N (p # ps) = ?N ps" using True by (auto simp: p)
    have L': "?L (p # ps) = insert {a} (?L ps)" using True by (auto simp: p)
    have mem: "{a} \<in> ?L ps \<longleftrightarrow> (a, a) \<in> ?S"
      by (auto simp: image_iff doubleton_eq_iff)
    show ?thesis
      unfolding S' N' L' using True Cons.IH finS finL mem
      by (simp add: card_insert_if)
  next
    case False
    have N': "?N (p # ps) = insert {a, b} (?N ps)" using False by (auto simp: p)
    have L': "?L (p # ps) = ?L ps" using False by (auto simp: p)
    have mem: "{a, b} \<in> ?N ps \<longleftrightarrow> (a, b) \<in> ?S"
      using False by (auto simp: image_iff doubleton_eq_iff) force+
    show ?thesis
      unfolding S' N' L' using False Cons.IH finS finN mem swapS [of a b]
      by (simp add: card_insert_if)
  qed
qed

lemma edge_pairs_Sigma:
  "edge_pairs g = (SIGMA i:{..<length (m_vertex_node_list g)}. dests g i)"
  by (auto simp: edge_pairs_def)

lemma total_edge_records_card:
  assumes "edges_distinct g"
  shows "total_edge_records g = card (edge_pairs g)"
proof -
  let ?vs = "m_vertex_node_list g"
  have c: "card (dests g i) = length (edge_list (?vs ! i))" if "i < length ?vs" for i
  proof -
    from assms that have "distinct (map vertex_node (edge_list (?vs ! i)))"
      by (simp add: edges_distinct_def)
    from distinct_card [OF this] show ?thesis by (simp add: dests_def)
  qed
  have "card (edge_pairs g) = (\<Sum>i\<in>{..<length ?vs}. card (dests g i))"
    unfolding edge_pairs_Sigma by (rule card_SigmaI) (simp_all add: dests_def)
  also have "\<dots> = (\<Sum>i\<in>{..<length ?vs}. length (edge_list (?vs ! i)))"
    by (rule sum.cong) (simp_all add: c)
  also have "\<dots> = total_edge_records g"
    by (simp add: total_edge_records_def sum_list_sum_nth atLeast0LessThan)
  finally show ?thesis by simp
qed

lemma class_pairs_card:
  assumes "equivp VerEq" "vertices_distinct VerEq g" "edges_live g"
  shows "card (class_pairs VerEq g) = card (edge_pairs g)"
  unfolding class_pairs_def
proof (rule card_image)
  let ?vs = "m_vertex_node_list g"
  have lt: "i < length ?vs \<and> j < length ?vs" if "(i, j) \<in> edge_pairs g" for i j
    using that assms(3) by (auto simp: edge_pairs_def edges_live_def dests_def)
  have inj: "i = i'" if "i < length ?vs" "i' < length ?vs"
    "eq_class VerEq (vertex (?vs ! i)) = eq_class VerEq (vertex (?vs ! i'))" for i i'
    using that assms(2) by (simp add: eq_class_eq [OF assms(1)] vertices_distinct_def)
  show "inj_on (\<lambda>(i, j). (eq_class VerEq (vertex (?vs ! i)), eq_class VerEq (vertex (?vs ! j))))
          (edge_pairs g)"
    unfolding inj_on_def
  proof (intro ballI impI)
    fix p q
    assume p: "p \<in> edge_pairs g" and q: "q \<in> edge_pairs g"
      and e: "(case p of (i, j) \<Rightarrow>
                (eq_class VerEq (vertex (?vs ! i)), eq_class VerEq (vertex (?vs ! j)))) =
              (case q of (i, j) \<Rightarrow>
                (eq_class VerEq (vertex (?vs ! i)), eq_class VerEq (vertex (?vs ! j))))"
    obtain i j where pp: "p = (i, j)" by (cases p)
    obtain i' j' where qq: "q = (i', j')" by (cases q)
    from p q pp qq lt have "i < length ?vs" "j < length ?vs" "i' < length ?vs" "j' < length ?vs"
      by blast+
    with e pp qq inj [of i i'] inj [of j j'] show "p = q" by simp
  qed
qed

text \<open>The pairs of endpoint classes after the insertions.\<close>

lemma addVertex_edge_pairs:
  assumes "symp VerEq"
  shows "edge_pairs (fst (addVertex VerEq g v)) = edge_pairs g"
proof (cases "\<exists>n\<in>set (m_vertex_node_list g). VerEq (vertex n) v")
  case True
  then show ?thesis by (simp add: addVertex_state [OF assms])
next
  case False
  have "edge_pairs (append_vertex g v) = edge_pairs g"
    by (auto simp: edge_pairs_def less_Suc_eq append_vertex_dests append_vertex_dests_last)
  with False show ?thesis by (simp add: addVertex_state [OF assms])
qed

lemma addVertex_class_pairs:
  assumes "symp VerEq" "edges_live g"
  shows "class_pairs VerEq (fst (addVertex VerEq g v)) = class_pairs VerEq g"
proof -
  let ?g' = "fst (addVertex VerEq g v)"
  have "(\<lambda>(i, j). (eq_class VerEq (vertex (m_vertex_node_list ?g' ! i)),
                    eq_class VerEq (vertex (m_vertex_node_list ?g' ! j)))) ` edge_pairs g =
        (\<lambda>(i, j). (eq_class VerEq (vertex (m_vertex_node_list g ! i)),
                    eq_class VerEq (vertex (m_vertex_node_list g ! j)))) ` edge_pairs g"
  proof (rule image_cong [OF refl])
    fix p assume p: "p \<in> edge_pairs g"
    obtain i j where pp: "p = (i, j)" by (cases p)
    from p pp assms(2) have "i < length (m_vertex_node_list g)" "j < length (m_vertex_node_list g)"
      by (auto simp: edge_pairs_def edges_live_def dests_def)
    with pp show "(case p of (i, j) \<Rightarrow>
            (eq_class VerEq (vertex (m_vertex_node_list ?g' ! i)),
             eq_class VerEq (vertex (m_vertex_node_list ?g' ! j)))) =
          (case p of (i, j) \<Rightarrow>
            (eq_class VerEq (vertex (m_vertex_node_list g ! i)),
             eq_class VerEq (vertex (m_vertex_node_list g ! j))))"
      by (simp add: addVertex_nth [OF assms(1)])
  qed
  then show ?thesis
    by (simp add: class_pairs_def addVertex_edge_pairs [OF assms(1)])
qed

lemma addEdgeHelper_edge_pairs:
  assumes "f < length (m_vertex_node_list g)"
  shows "edge_pairs (fst (addEdgeHelper Weighted g f t w)) = insert (f, t) (edge_pairs g)"
  using assms by (auto simp: edge_pairs_def addEdgeHelper_dests split: if_splits)

lemma addEdgeHelper_class_pairs:
  assumes "f < length (m_vertex_node_list g)"
  shows "class_pairs VerEq (fst (addEdgeHelper Weighted g f t w)) =
           insert (eq_class VerEq (vertex (m_vertex_node_list g ! f)),
                   eq_class VerEq (vertex (m_vertex_node_list g ! t)))
             (class_pairs VerEq g)"
  by (simp add: class_pairs_def addEdgeHelper_edge_pairs [OF assms])

lemma addEdge_class_pairs:
  assumes eq: "equivp VerEq" and inv: "graph_inv False VerEq g"
  shows "class_pairs VerEq (fst (addEdge False Weighted VerEq g e)) =
           insert (eq_class VerEq (get0 e), eq_class VerEq (get1 e))
             (insert (eq_class VerEq (get1 e), eq_class VerEq (get0 e)) (class_pairs VerEq g))"
proof -
  note sy = equivp_symp [OF eq] and re = equivp_reflp' [OF eq]
  let ?g1 = "fst (addVertex VerEq g (get0 e))"
  let ?g2 = "fst (addVertex VerEq ?g1 (get1 e))"
  from addVertex_ptr [OF sy re, of g "get0 e"] obtain i where
    pi: "fst (snd (addVertex VerEq g (get0 e))) = VertexIter (Some i)"
    and l1: "i < length (m_vertex_node_list ?g1)"
    and ei: "VerEq (vertex (m_vertex_node_list ?g1 ! i)) (get0 e)" by blast
  from addVertex_ptr [OF sy re, of ?g1 "get1 e"] obtain j where
    pj: "fst (snd (addVertex VerEq ?g1 (get1 e))) = VertexIter (Some j)"
    and lj: "j < length (m_vertex_node_list ?g2)"
    and ej: "VerEq (vertex (m_vertex_node_list ?g2 ! j)) (get1 e)" by blast
  from l1 addVertex_length [OF sy, of ?g1 "get1 e"] have li: "i < length (m_vertex_node_list ?g2)"
    by simp
  from ei addVertex_nth [OF sy l1, of "get1 e"]
  have ei2: "VerEq (vertex (m_vertex_node_list ?g2 ! i)) (get0 e)" by simp
  have ci: "eq_class VerEq (vertex (m_vertex_node_list ?g2 ! i)) = eq_class VerEq (get0 e)"
    using ei2 by (simp add: eq_class_eq [OF eq])
  have cj: "eq_class VerEq (vertex (m_vertex_node_list ?g2 ! j)) = eq_class VerEq (get1 e)"
    using ej by (simp add: eq_class_eq [OF eq])
  have a1: "addVertex VerEq g (get0 e) = (?g1, VertexIter (Some i), snd (snd (addVertex VerEq g (get0 e))))"
    using pi by (simp add: prod_eq_iff)
  have a2: "addVertex VerEq ?g1 (get1 e) = (?g2, VertexIter (Some j), snd (snd (addVertex VerEq ?g1 (get1 e))))"
    using pj by (simp add: prod_eq_iff)
  let ?g3 = "fst (addEdgeHelper Weighted ?g2 j i (get_last e))"
  have unf: "fst (addEdge False Weighted VerEq g e) =
               fst (addEdgeHelper Weighted ?g3 i j (get_last e))"
    using addEdge_unfold [OF a1 a2, of False Weighted] by simp
  from inv have live: "edges_live g" by (simp add: graph_inv_def)
  have "graph_inv False VerEq ?g1" by (intro addVertex_inv sy inv)
  then have live1: "edges_live ?g1" by (simp add: graph_inv_def)
  have c2: "class_pairs VerEq ?g2 = class_pairs VerEq g"
    by (simp add: addVertex_class_pairs [OF sy live1] addVertex_class_pairs [OF sy live])
  have c3: "class_pairs VerEq ?g3 =
      insert (eq_class VerEq (get1 e), eq_class VerEq (get0 e)) (class_pairs VerEq g)"
    by (simp add: addEdgeHelper_class_pairs [OF lj] ci cj c2)
  have li3: "i < length (m_vertex_node_list ?g3)" using li by simp
  show ?thesis
    unfolding unf by (simp add: addEdgeHelper_class_pairs [OF li3] c3 ci cj)
qed

lemma addEdge_list_inv:
  assumes "symp VerEq" "reflp VerEq" "graph_inv Directed VerEq g"
  shows "graph_inv Directed VerEq (addEdge_list Directed Weighted VerEq g es)"
  using assms(3)
  by (induction es arbitrary: g) (simp_all add: addEdge_inv [OF assms(1,2)])

lemma addEdge_list_class_pairs:
  assumes "equivp VerEq" "graph_inv False VerEq g"
  shows "class_pairs VerEq (addEdge_list False Weighted VerEq g es) =
           class_pairs VerEq g \<union>
           ((\<lambda>e. (eq_class VerEq (get0 e), eq_class VerEq (get1 e))) ` set es \<union>
            (\<lambda>e. (eq_class VerEq (get1 e), eq_class VerEq (get0 e))) ` set es)"
  using assms(2)
proof (induction es arbitrary: g)
  case Nil
  show ?case by simp
next
  case (Cons e es)
  from Cons.prems have "graph_inv False VerEq (fst (addEdge False Weighted VerEq g e))"
    by (intro addEdge_inv equivp_symp [OF assms(1)] equivp_reflp' [OF assms(1)])
  from Cons.IH [OF this] show ?case
    by (simp add: addEdge_class_pairs [OF assms(1) Cons.prems]) blast
qed

lemma addVertex_list_edge_pairs:
  "symp VerEq \<Longrightarrow> edge_pairs (addVertex_list VerEq g vs) = edge_pairs g"
  by (induction vs arbitrary: g) (simp_all add: addVertex_edge_pairs)

lemma unordered_nonloops:
  assumes "equivp VerEq"
  shows "(\<lambda>(a, b). {a, b}) `
           {(a, b). (a, b) \<in> set (map (\<lambda>e. (eq_class VerEq (get0 e), eq_class VerEq (get1 e))) es) \<and>
                    a \<noteq> b} =
         unordered_edge VerEq ` {e \<in> set es. \<not> VerEq (get0 e) (get1 e)}"
proof -
  let ?p = "\<lambda>e. (eq_class VerEq (get0 e), eq_class VerEq (get1 e))"
  have "{(a, b). (a, b) \<in> set (map ?p es) \<and> a \<noteq> b} =
        ?p ` {e \<in> set es. \<not> VerEq (get0 e) (get1 e)}"
  proof (intro set_eqI iffI)
    fix x assume "x \<in> {(a, b). (a, b) \<in> set (map ?p es) \<and> a \<noteq> b}"
    then obtain e where e: "e \<in> set es" and x: "x = ?p e"
      and c: "eq_class VerEq (get0 e) \<noteq> eq_class VerEq (get1 e)" by auto
    from c have "\<not> VerEq (get0 e) (get1 e)" by (simp add: eq_class_eq [OF assms])
    with e have m: "e \<in> {e \<in> set es. \<not> VerEq (get0 e) (get1 e)}" by simp
    from x m show "x \<in> ?p ` {e \<in> set es. \<not> VerEq (get0 e) (get1 e)}" by (rule image_eqI)
  next
    fix x assume "x \<in> ?p ` {e \<in> set es. \<not> VerEq (get0 e) (get1 e)}"
    then obtain e where e: "e \<in> set es" and x: "x = ?p e" and v: "\<not> VerEq (get0 e) (get1 e)" by auto
    from v have c: "eq_class VerEq (get0 e) \<noteq> eq_class VerEq (get1 e)"
      by (simp add: eq_class_eq [OF assms])
    from e have "?p e \<in> set (map ?p es)" by simp
    with c show "x \<in> {(a, b). (a, b) \<in> set (map ?p es) \<and> a \<noteq> b}"
      unfolding x by blast
  qed
  moreover have "unordered_edge VerEq = (\<lambda>e. {eq_class VerEq (get0 e), eq_class VerEq (get1 e)})"
    by (simp add: fun_eq_iff unordered_edge_def)
  ultimately show ?thesis by (simp add: image_image)
qed

lemma unordered_loops:
  assumes "equivp VerEq"
  shows "(\<lambda>(a, b). {a, b}) `
           {(a, b). (a, b) \<in> set (map (\<lambda>e. (eq_class VerEq (get0 e), eq_class VerEq (get1 e))) es) \<and>
                    a = b} =
         unordered_edge VerEq ` {e \<in> set es. VerEq (get0 e) (get1 e)}"
proof -
  let ?p = "\<lambda>e. (eq_class VerEq (get0 e), eq_class VerEq (get1 e))"
  have "{(a, b). (a, b) \<in> set (map ?p es) \<and> a = b} =
        ?p ` {e \<in> set es. VerEq (get0 e) (get1 e)}"
  proof (intro set_eqI iffI)
    fix x assume "x \<in> {(a, b). (a, b) \<in> set (map ?p es) \<and> a = b}"
    then obtain e where e: "e \<in> set es" and x: "x = ?p e"
      and c: "eq_class VerEq (get0 e) = eq_class VerEq (get1 e)" by auto
    from c have "VerEq (get0 e) (get1 e)" by (simp add: eq_class_eq [OF assms])
    with e have m: "e \<in> {e \<in> set es. VerEq (get0 e) (get1 e)}" by simp
    from x m show "x \<in> ?p ` {e \<in> set es. VerEq (get0 e) (get1 e)}" by (rule image_eqI)
  next
    fix x assume "x \<in> ?p ` {e \<in> set es. VerEq (get0 e) (get1 e)}"
    then obtain e where e: "e \<in> set es" and x: "x = ?p e" and v: "VerEq (get0 e) (get1 e)" by auto
    from v have c: "eq_class VerEq (get0 e) = eq_class VerEq (get1 e)"
      by (simp add: eq_class_eq [OF assms])
    from e have "?p e \<in> set (map ?p es)" by simp
    with c show "x \<in> {(a, b). (a, b) \<in> set (map ?p es) \<and> a = b}"
      unfolding x by blast
  qed
  moreover have "unordered_edge VerEq = (\<lambda>e. {eq_class VerEq (get0 e), eq_class VerEq (get1 e)})"
    by (simp add: fun_eq_iff unordered_edge_def)
  ultimately show ?thesis by (simp add: image_image)
qed

text \<open>
  Claim C2, as the code has it. In an undirected graph, after any sequence of edge
  insertions (into the empty graph, or into a graph that holds vertices only) the number of
  edge records is twice the number of distinct inserted unordered edges between two
  different vertices plus the number of distinct inserted self-loops: a self-loop
  \<open>(u, u)\<close> inserts one edge record into the edge list of \<open>u\<close>, since the second insertion
  finds the record of the first.
\<close>

theorem undirected_edge_records:
  assumes "equivp VerEq"
  shows "total_edge_records
           (addEdge_list False Weighted VerEq (addVertex_list VerEq Graph_empty vs) es) =
           2 * card (unordered_edge VerEq ` {e \<in> set es. \<not> VerEq (get0 e) (get1 e)}) +
           card (unordered_edge VerEq ` {e \<in> set es. VerEq (get0 e) (get1 e)}) \<and>
         total_edge_records (Graph_of_edges False Weighted VerEq es) =
           2 * card (unordered_edge VerEq ` {e \<in> set es. \<not> VerEq (get0 e) (get1 e)}) +
           card (unordered_edge VerEq ` {e \<in> set es. VerEq (get0 e) (get1 e)}) \<and>
         total_edge_records (Graph_of_edges False Weighted VerEq [(u, u, w)]) = 1"
proof -
  note sy = equivp_symp [OF assms] and re = equivp_reflp' [OF assms]
  let ?p = "\<lambda>e. (eq_class VerEq (get0 e), eq_class VerEq (get1 e))"
  have main: "total_edge_records
           (addEdge_list False Weighted VerEq (addVertex_list VerEq Graph_empty vs) es) =
           2 * card (unordered_edge VerEq ` {e \<in> set es. \<not> VerEq (get0 e) (get1 e)}) +
           card (unordered_edge VerEq ` {e \<in> set es. VerEq (get0 e) (get1 e)})" for vs es
  proof -
    let ?h = "addVertex_list VerEq Graph_empty vs"
    let ?g = "addEdge_list False Weighted VerEq ?h es"
    have inv0: "graph_inv False VerEq ?h"
      by (intro addVertex_list_inv sy Graph_empty_inv)
    have "edge_pairs (Graph_empty :: 'a Graph) = {}"
      by (simp add: edge_pairs_def Graph_empty_def)
    then have "edge_pairs ?h = {}"
      by (simp only: addVertex_list_edge_pairs [OF sy])
    then have c0: "class_pairs VerEq ?h = {}" by (simp add: class_pairs_def)
    have inv: "graph_inv False VerEq ?g"
      by (rule addEdge_list_inv [OF sy re inv0])
    then have d: "edges_distinct ?g" and v: "vertices_distinct VerEq ?g" and l: "edges_live ?g"
      by (simp_all add: graph_inv_def)
    have swap: "(\<lambda>e. (eq_class VerEq (get1 e), eq_class VerEq (get0 e))) ` set es =
                prod.swap ` set (map ?p es)"
      by (auto simp: image_iff)
    have "total_edge_records ?g = card (class_pairs VerEq ?g)"
      by (simp add: total_edge_records_card [OF d] class_pairs_card [OF assms v l])
    also have "class_pairs VerEq ?g = set (map ?p es) \<union> prod.swap ` set (map ?p es)"
      unfolding addEdge_list_class_pairs [OF assms inv0] c0 swap by simp
    also note sym_closure_card [of "map ?p es"]
    finally show ?thesis
      unfolding unordered_nonloops [OF assms] unordered_loops [OF assms] .
  qed
  have g: "total_edge_records (Graph_of_edges False Weighted VerEq es') =
           2 * card (unordered_edge VerEq ` {e \<in> set es'. \<not> VerEq (get0 e) (get1 e)}) +
           card (unordered_edge VerEq ` {e \<in> set es'. VerEq (get0 e) (get1 e)})" for es'
    using main [of "[]" es'] by (simp add: Graph_of_edges_def)
  from re have "VerEq u u" by (rule reflpD)
  then have n: "{e \<in> set [(u, u, w)]. \<not> VerEq (get0 e) (get1 e)} = {}"
    and l: "{e \<in> set [(u, u, w)]. VerEq (get0 e) (get1 e)} = {(u, u, w)}"
    by (auto simp: get0_def get1_def)
  have "total_edge_records (Graph_of_edges False Weighted VerEq [(u, u, w)]) = 1"
    unfolding g [of "[(u, u, w)]"] n l by simp
  with main [of vs es] g [of es] show ?thesis by simp
qed

theorem undirected_edge_records_witness:
  "equivp ((=) :: int \<Rightarrow> int \<Rightarrow> bool) \<and>
   total_edge_records (Graph_of_edges False True (=) [(1::int, 2, 5), (2, 1, 6), (3, 3, 7), (2, 3, 1)]) =
     2 * card (unordered_edge (=) ` {e \<in> set [(1::int, 2, 5), (2, 1, 6), (3, 3, 7), (2, 3, 1)].
                 get0 e \<noteq> get1 e}) +
     card (unordered_edge (=) ` {e \<in> set [(1::int, 2, 5), (2, 1, 6), (3, 3, 7), (2, 3, 1)].
                 get0 e = get1 e}) \<and>
   total_edge_records (Graph_of_edges False True (=) [(1::int, 2, 5), (2, 1, 6), (3, 3, 7), (2, 3, 1)]) = 5 \<and>
   total_edge_records (Graph_of_edges False True (=) [(3::int, 3, 7)]) = 1"
proof -
  have e: "equivp ((=) :: int \<Rightarrow> int \<Rightarrow> bool)" by (rule identity_equivp)
  have t: "total_edge_records
      (Graph_of_edges False True (=) [(1::int, 2, 5), (2, 1, 6), (3, 3, 7), (2, 3, 1)]) = 5"
    by (simp add: graph_defs total_edge_records_def)
  from undirected_edge_records [OF e, of True "[]" "[(1, 2, 5), (2, 1, 6), (3, 3, 7), (2, 3, 1)]" 3 7]
    e t show ?thesis by simp
qed

text \<open>
  The claim as stated counts two records for a self-loop. The undirected graph built from
  the one edge \<open>(1, 1, 5)\<close> holds one edge record, and one distinct unordered edge.
\<close>

theorem undirected_edge_records_counterexample:
  "total_edge_records (Graph_of_edges False True (=) [(1::int, 1, 5)]) = 1 \<and>
   card (unordered_edge (=) ` set [(1::int, 1, 5)]) = 1 \<and>
   m_vertex_node_list (Graph_of_edges False True (=) [(1::int, 1, 5)]) =
     [\<lparr>vertex = 1, edge_list = [\<lparr>weight = 5, vertex_node = 0\<rparr>]\<rparr>] \<and>
   total_edge_records (Graph_of_edges False True (=) [(1::int, 1, 5)]) \<noteq>
     2 * card (unordered_edge (=) ` set [(1::int, 1, 5)])"
  by (simp add: graph_defs total_edge_records_def)

end
